theory Spec2Isabelle
  imports Complex_Main
begin

section \<open>JavaScript values as the tool handler receives them\<close>

text \<open>
  The tool arguments reach the server through JSON-RPC, so every value the validator sees
  is a decoded JSON value (or \<open>undefined\<close>, for a missing argument or a missing property).
  A number is a double. Decoding never yields NaN. \<open>JNum r\<close> is a finite double and
  carries its exact value, which is rational, so that the comparisons \<open>value < -1\<close> and
  \<open>value > 1\<close> of the source are exact. A literal beyond the range of doubles decodes to an
  infinity: \<open>JInf True\<close> is \<open>Infinity\<close> and \<open>JInf False\<close> is \<open>-Infinity\<close>; one of the two
  comparisons holds of it, so every range check of the program rejects it. An object is
  the list of its own properties.
\<close>

datatype jsval =
    JUndefined
  | JNull
  | JBool bool
  | JNum rat
  | JInf bool
  | JStr string
  | JArr "jsval list"
  | JObj "(string \<times> jsval) list"

text \<open>The \<open>typeof\<close> operator.\<close>

fun typeof :: "jsval \<Rightarrow> string" where
  "typeof JUndefined = ''undefined''"
| "typeof JNull = ''object''"
| "typeof (JBool b) = ''boolean''"
| "typeof (JNum r) = ''number''"
| "typeof (JInf b) = ''number''"
| "typeof (JStr s) = ''string''"
| "typeof (JArr xs) = ''object''"
| "typeof (JObj kvs) = ''object''"

text \<open>
  Property read \<open>v.k\<close> for the names the program reads (\<open>type\<close>, \<open>code\<close>, \<open>value\<close>,
  \<open>events\<close>): an object yields its property or \<open>undefined\<close>; a decoded array, a string, a
  number and a boolean have no such property. The program never reads a property of
  \<open>null\<close> or \<open>undefined\<close>: each read is behind a guard.
\<close>

fun getprop :: "jsval \<Rightarrow> string \<Rightarrow> jsval" where
  "getprop (JObj kvs) k = (case map_of kvs k of Some v \<Rightarrow> v | None \<Rightarrow> JUndefined)"
| "getprop v k = JUndefined"

text \<open>Truthiness, as \<open>!v\<close> tests it.\<close>

fun truthy :: "jsval \<Rightarrow> bool" where
  "truthy JUndefined = False"
| "truthy JNull = False"
| "truthy (JBool b) = b"
| "truthy (JNum r) = (r \<noteq> 0)"
| "truthy (JInf b) = True"
| "truthy (JStr s) = (s \<noteq> [])"
| "truthy (JArr xs) = True"
| "truthy (JObj kvs) = True"

section \<open>Errors\<close>

datatype ErrorCode = InvalidParams | InvalidRequest | MethodNotFound

text \<open>
  \<open>McpError c m\<close> is \<open>new McpError(c, m)\<close>. \<open>TypeError\<close> is the exception of the
  \<open>in\<close> operator applied to a primitive.
\<close>

datatype error = McpError ErrorCode string | TypeError

section \<open>Event taxonomy (types.ts)\<close>

text \<open>The two tables of legal (type, code) pairs.\<close>

definition VALID_BUTTON_EVENTS :: "(string \<times> string) list" where
  "VALID_BUTTON_EVENTS =
    [(''button'', ''A''), (''button'', ''B''), (''button'', ''X''), (''button'', ''Y''),
     (''button'', ''LEFT_SHOULDER''), (''button'', ''RIGHT_SHOULDER''),
     (''button'', ''LEFT_THUMB''), (''button'', ''RIGHT_THUMB''),
     (''button'', ''BACK''), (''button'', ''START''), (''button'', ''GUIDE''),
     (''button'', ''DPAD_UP''), (''button'', ''DPAD_DOWN''),
     (''button'', ''DPAD_LEFT''), (''button'', ''DPAD_RIGHT''),
     (''keyboard'', ''space''),
     (''mouseButton'', ''leftClick''), (''mouseButton'', ''rightClick''),
     (''mouseButton'', ''middleClick'')]"

definition VALID_SLIDER_EVENTS :: "(string \<times> string) list" where
  "VALID_SLIDER_EVENTS =
    [(''axis'', ''leftX''), (''axis'', ''leftY''), (''axis'', ''rightX''), (''axis'', ''rightY''),
     (''trigger'', ''leftTrigger''), (''trigger'', ''rightTrigger'')]"

text \<open>The enumerations of the second version of types.ts: the values of each enum.\<close>

definition ButtonCode :: "string list" where
  "ButtonCode = [''A'', ''B'', ''X'', ''Y'', ''LEFT_SHOULDER'', ''RIGHT_SHOULDER'',
     ''LEFT_THUMB'', ''RIGHT_THUMB'', ''BACK'', ''START'', ''GUIDE'',
     ''DPAD_UP'', ''DPAD_DOWN'', ''DPAD_LEFT'', ''DPAD_RIGHT'']"

definition AxisCode :: "string list" where
  "AxisCode = [''leftX'', ''leftY'', ''rightX'', ''rightY'']"

definition TriggerCode :: "string list" where
  "TriggerCode = [''leftTrigger'', ''rightTrigger'']"

definition MouseButtonCode :: "string list" where
  "MouseButtonCode = [''leftClick'', ''rightClick'', ''middleClick'']"

definition KeyboardCode :: "string list" where
  "KeyboardCode = [''space'']"

definition EventType :: "string list" where
  "EventType = [''button'', ''axis'', ''trigger'', ''mouseButton'', ''keyboard'']"

section \<open>The validator (utils/validation.ts, and inline in the single-file server)\<close>

text \<open>\<open>VALID_BUTTON_EVENTS.some(event => event.type === type && event.code === code)\<close>\<close>

definition isValidButtonCode :: "string \<Rightarrow> string \<Rightarrow> bool" where
  "isValidButtonCode type code =
     list_ex (\<lambda>event. fst event = type \<and> snd event = code) VALID_BUTTON_EVENTS"

definition isValidSliderCode :: "string \<Rightarrow> string \<Rightarrow> bool" where
  "isValidSliderCode type code =
     list_ex (\<lambda>event. fst event = type \<and> snd event = code) VALID_SLIDER_EVENTS"

text \<open>
  \<open>validateEvent\<close>, table version. Each \<open>throw\<close> is an \<open>Inl\<close>; the successful return is
  the argument itself (\<open>return event as GamepadEvent\<close> is a cast, not a copy).
\<close>

definition validateEvent :: "jsval \<Rightarrow> error + jsval" where
  "validateEvent event =
    (if typeof event \<noteq> ''object'' \<or> event = JNull then
       Inl (McpError InvalidParams ''Invalid event format: event must be an object'')
     else
       (case (getprop event ''type'', getprop event ''code'') of
          (JStr type, JStr code) \<Rightarrow>
            if List.member [''button'', ''mouseButton'', ''keyboard''] type then
              (if \<not> isValidButtonCode type code then
                 Inl (McpError InvalidParams (''Invalid '' @ type @ '' code: '' @ code))
               else if typeof (getprop event ''value'') \<noteq> ''boolean'' then
                 Inl (McpError InvalidParams (''Invalid value for '' @ type @ '': must be boolean''))
               else Inr event)
            else if List.member [''axis'', ''trigger''] type then
              (if \<not> isValidSliderCode type code then
                 Inl (McpError InvalidParams (''Invalid '' @ type @ '' code: '' @ code))
               else
                 (case getprop event ''value'' of
                    JNum v \<Rightarrow>
                      if v < -1 \<or> v > 1 then
                        Inl (McpError InvalidParams
                          (''Invalid value for '' @ type @ '': must be number between -1 and 1''))
                      else Inr event
                  | _ \<Rightarrow>
                      Inl (McpError InvalidParams
                        (''Invalid value for '' @ type @ '': must be number between -1 and 1''))))
            else Inl (McpError InvalidParams (''Invalid event type: '' @ type))
        | _ \<Rightarrow>
            Inl (McpError InvalidParams ''Invalid event format: type and code must be strings'')))"

text \<open>\<open>args.events.map(validateEvent)\<close>: the first \<open>throw\<close> aborts the whole map.\<close>

fun map_validateEvent :: "jsval list \<Rightarrow> error + jsval list" where
  "map_validateEvent [] = Inr []"
| "map_validateEvent (event # events) =
     (case validateEvent event of
        Inl err \<Rightarrow> Inl err
      | Inr v \<Rightarrow>
          (case map_validateEvent events of
             Inl err \<Rightarrow> Inl err
           | Inr vs \<Rightarrow> Inr (v # vs)))"

subsection \<open>The enum version of the validator\<close>

text \<open>
  The second version of utils/validation.ts checks the same things against the enums.
  \<open>xs.includes(v)\<close> on a list of strings holds only for a string \<open>v\<close> of the list.
  Its messages interpolate \<open>event.type\<close> and \<open>event.code\<close> before they are known to be
  strings; \<open>str\<close> is the string conversion of a template literal, taken as a parameter.
\<close>

fun array_includes :: "string list \<Rightarrow> jsval \<Rightarrow> bool" where
  "array_includes xs (JStr s) = (s \<in> set xs)"
| "array_includes xs v = False"

fun join :: "string \<Rightarrow> string list \<Rightarrow> string" where
  "join sep [] = []"
| "join sep [x] = x"
| "join sep (x # y # ys) = x @ sep @ join sep (y # ys)"

definition validateAnalogValue :: "jsval \<Rightarrow> error option" where
  "validateAnalogValue v =
     (case v of
        JNum r \<Rightarrow>
          if r < -1 \<or> r > 1
          then Some (McpError InvalidParams ''Analog value must be a number between -1 and 1'')
          else None
      | _ \<Rightarrow> Some (McpError InvalidParams ''Analog value must be a number between -1 and 1''))"

definition validateEvent_enum :: "(jsval \<Rightarrow> string) \<Rightarrow> jsval \<Rightarrow> error + jsval" where
  "validateEvent_enum str event =
    (if \<not> truthy event \<or> typeof event \<noteq> ''object'' then
       Inl (McpError InvalidParams ''Event must be an object'')
     else if \<not> truthy (getprop event ''type'') \<or> \<not> array_includes EventType (getprop event ''type'') then
       Inl (McpError InvalidParams
         (''Invalid event type: '' @ str (getprop event ''type'') @ ''. Must be one of: ''
            @ join '', '' EventType))
     else if \<not> truthy (getprop event ''code'') then
       Inl (McpError InvalidParams ''Event code is required'')
     else if getprop event ''type'' = JStr ''button'' then
       (if \<not> array_includes ButtonCode (getprop event ''code'') then
          Inl (McpError InvalidParams
            (''Invalid button code: '' @ str (getprop event ''code'') @ ''. Must be one of: ''
               @ join '', '' ButtonCode))
        else if typeof (getprop event ''value'') \<noteq> ''boolean'' then
          Inl (McpError InvalidParams ''Button value must be boolean'')
        else Inr event)
     else if getprop event ''type'' = JStr ''axis'' then
       (if \<not> array_includes AxisCode (getprop event ''code'') then
          Inl (McpError InvalidParams
            (''Invalid axis code: '' @ str (getprop event ''code'') @ ''. Must be one of: ''
               @ join '', '' AxisCode))
        else (case validateAnalogValue (getprop event ''value'') of
                Some err \<Rightarrow> Inl err
              | None \<Rightarrow> Inr event))
     else if getprop event ''type'' = JStr ''trigger'' then
       (if \<not> array_includes TriggerCode (getprop event ''code'') then
          Inl (McpError InvalidParams
            (''Invalid trigger code: '' @ str (getprop event ''code'') @ ''. Must be one of: ''
               @ join '', '' TriggerCode))
        else (case validateAnalogValue (getprop event ''value'') of
                Some err \<Rightarrow> Inl err
              | None \<Rightarrow> Inr event))
     else if getprop event ''type'' = JStr ''mouseButton'' then
       (if \<not> array_includes MouseButtonCode (getprop event ''code'') then
          Inl (McpError InvalidParams
            (''Invalid mouse button code: '' @ str (getprop event ''code'') @ ''. Must be one of: ''
               @ join '', '' MouseButtonCode))
        else if typeof (getprop event ''value'') \<noteq> ''boolean'' then
          Inl (McpError InvalidParams ''Mouse button value must be boolean'')
        else Inr event)
     else if getprop event ''type'' = JStr ''keyboard'' then
       (if \<not> array_includes KeyboardCode (getprop event ''code'') then
          Inl (McpError InvalidParams
            (''Invalid keyboard code: '' @ str (getprop event ''code'') @ ''. Must be one of: ''
               @ join '', '' KeyboardCode))
        else if typeof (getprop event ''value'') \<noteq> ''boolean'' then
          Inl (McpError InvalidParams ''Keyboard value must be boolean'')
        else Inr event)
     else Inr event)"

section \<open>The connection manager (websocket/WebSocketHandler.ts)\<close>

text \<open>
  The single-file server has the same fields and the same bodies inline
  (\<open>connectWebSocket\<close> with its four listeners, \<open>sendToWebSocket\<close>); one model serves both.

  The handler holds a reference to a socket and a reference to an interval timer. Both
  are objects of the runtime that live on after the handler drops its reference, so the
  model keeps them in a store: \<open>sockets\<close> is every \<open>WebSocket\<close> created so far (a
  reference is an index), \<open>timers\<close> every timer created by \<open>setInterval\<close>, with \<open>True\<close>
  while it has not been cleared. \<open>sent\<close> lists the frames handed to a socket, each as the
  value given to \<open>JSON.stringify\<close>.
\<close>

datatype ReadyState = CONNECTING | OPEN | CLOSING | CLOSED

record WebSocket =
  readyState :: ReadyState
  sent :: "jsval list"

record WebSocketHandler =
  ws :: "nat option"
  wsReconnectInterval :: "nat option"
  sockets :: "WebSocket list"
  timers :: "bool list"

definition new_WebSocketHandler :: WebSocketHandler where
  "new_WebSocketHandler = \<lparr>ws = None, wsReconnectInterval = None, sockets = [], timers = []\<rparr>"

text \<open>\<open>this.ws?.readyState === WebSocket.OPEN\<close>\<close>

definition ws_is_open :: "WebSocketHandler \<Rightarrow> bool" where
  "ws_is_open h =
     (case ws h of
        None \<Rightarrow> False
      | Some i \<Rightarrow> i < length (sockets h) \<and> readyState (sockets h ! i) = OPEN)"

definition setupReconnection :: "WebSocketHandler \<Rightarrow> WebSocketHandler" where
  "setupReconnection h =
     (case wsReconnectInterval h of
        None \<Rightarrow> h\<lparr>wsReconnectInterval := Some (length (timers h)), timers := timers h @ [True]\<rparr>
      | Some t \<Rightarrow> h)"

text \<open>
  \<open>connect\<close>. \<open>created\<close> says whether \<open>new WebSocket(...)\<close> returned; when it throws, the
  assignment to \<open>this.ws\<close> does not happen and the \<open>catch\<close> block runs. The listeners
  registered by \<open>setupWebSocketListeners\<close> are bound to the handler, not to the socket:
  every socket of the store reports to the same four methods.
\<close>

definition connect :: "bool \<Rightarrow> WebSocketHandler \<Rightarrow> WebSocketHandler" where
  "connect created h =
     (if ws_is_open h then h
      else if created then
        h\<lparr>ws := Some (length (sockets h)),
          sockets := sockets h @ [\<lparr>readyState = CONNECTING, sent = []\<rparr>]\<rparr>
      else setupReconnection h)"

definition handleOpen :: "WebSocketHandler \<Rightarrow> WebSocketHandler" where
  "handleOpen h =
     (case wsReconnectInterval h of
        Some t \<Rightarrow> h\<lparr>wsReconnectInterval := None, timers := (timers h)[t := False]\<rparr>
      | None \<Rightarrow> h)"

text \<open>\<open>handleMessage\<close> and \<open>handleError\<close> only write to the log.\<close>

definition handleMessage :: "string \<Rightarrow> WebSocketHandler \<Rightarrow> WebSocketHandler" where
  "handleMessage data h = h"

definition handleClose :: "nat \<Rightarrow> string \<Rightarrow> WebSocketHandler \<Rightarrow> WebSocketHandler" where
  "handleClose code reason h = setupReconnection (h\<lparr>ws := None\<rparr>)"

definition handleError :: "string \<Rightarrow> WebSocketHandler \<Rightarrow> WebSocketHandler" where
  "handleError message h = h"

text \<open>
  \<open>send\<close>: \<open>Array.isArray(event) ? event : [event]\<close>, then one \<open>ws.send\<close> of
  \<open>JSON.stringify({ events })\<close>. On an open socket neither call throws for decoded JSON
  values, so the \<open>catch\<close> block (which only logs) has no branch here.
\<close>

definition send :: "jsval \<Rightarrow> WebSocketHandler \<Rightarrow> WebSocketHandler" where
  "send event h =
     (case ws h of
        None \<Rightarrow> h
      | Some i \<Rightarrow>
          if \<not> (i < length (sockets h) \<and> readyState (sockets h ! i) = OPEN) then h
          else
            (let events = (case event of JArr xs \<Rightarrow> xs | _ \<Rightarrow> [event]);
                 message = JObj [(''events'', JArr events)]
             in h\<lparr>sockets := (sockets h)[i := (sockets h ! i)
                    \<lparr>sent := sent (sockets h ! i) @ [message]\<rparr>]\<rparr>))"

subsection \<open>What the runtime delivers to the handler\<close>

text \<open>
  Between two callbacks the runtime may deliver: a socket event of any socket that is
  not yet closed, a tick of an interval timer that has not been cleared, or a call of
  \<open>send\<close>. The transport moves a socket to \<open>OPEN\<close> before it emits \<open>open\<close>, to \<open>CLOSING\<close>
  before it emits \<open>error\<close>, and to \<open>CLOSED\<close> before it emits \<open>close\<close>. A signal the
  runtime cannot deliver in the current state leaves the state as it is.
\<close>

datatype signal =
    Open nat
  | Message nat string
  | Close nat nat string
  | Error nat string
  | Tick nat bool
  | Send jsval

definition set_readyState :: "nat \<Rightarrow> ReadyState \<Rightarrow> WebSocketHandler \<Rightarrow> WebSocketHandler" where
  "set_readyState i r h = h\<lparr>sockets := (sockets h)[i := (sockets h ! i)\<lparr>readyState := r\<rparr>]\<rparr>"

fun step :: "signal \<Rightarrow> WebSocketHandler \<Rightarrow> WebSocketHandler" where
  "step (Open i) h =
     (if i < length (sockets h) \<and> readyState (sockets h ! i) = CONNECTING
      then handleOpen (set_readyState i OPEN h) else h)"
| "step (Message i data) h =
     (if i < length (sockets h) \<and> readyState (sockets h ! i) = OPEN
      then handleMessage data h else h)"
| "step (Close i code reason) h =
     (if i < length (sockets h) \<and> readyState (sockets h ! i) \<noteq> CLOSED
      then handleClose code reason (set_readyState i CLOSED h) else h)"
| "step (Error i message) h =
     (if i < length (sockets h) \<and> readyState (sockets h ! i) \<noteq> CLOSED
      then handleError message (set_readyState i CLOSING h) else h)"
| "step (Tick t created) h =
     (if t < length (timers h) \<and> timers h ! t then connect created h else h)"
| "step (Send event) h = send event h"

fun run :: "signal list \<Rightarrow> WebSocketHandler \<Rightarrow> WebSocketHandler" where
  "run [] h = h"
| "run (g # gs) h = run gs (step g h)"

text \<open>
  A handshake that fails and a handshake that times out are reported alike: the transport
  emits \<open>error\<close> and then \<open>close\<close> on the socket in one call, and nothing of the program
  runs between the two listeners.
\<close>

definition emitErrorAndClose :: "nat \<Rightarrow> string \<Rightarrow> nat \<Rightarrow> string \<Rightarrow> signal list" where
  "emitErrorAndClose i m code reason = [Error i m, Close i code reason]"

text \<open>The states of the specification's state machine, read off the handler.\<close>

datatype ConnectionState = Disconnected | Connecting | Connected

definition connectionState :: "WebSocketHandler \<Rightarrow> ConnectionState" where
  "connectionState h =
     (case ws h of
        None \<Rightarrow> Disconnected
      | Some i \<Rightarrow>
          if i < length (sockets h) \<and> readyState (sockets h ! i) = OPEN then Connected
          else if i < length (sockets h) \<and> readyState (sockets h ! i) = CONNECTING then Connecting
          else Disconnected)"

text \<open>Sockets that are not closed, and timers that are not cleared.\<close>

definition live_sockets :: "WebSocketHandler \<Rightarrow> nat" where
  "live_sockets h = length (filter (\<lambda>w. readyState w \<noteq> CLOSED) (sockets h))"

definition active_timers :: "WebSocketHandler \<Rightarrow> nat" where
  "active_timers h = length (filter (\<lambda>b. b) (timers h))"

text \<open>
  The timers of the store in terms of the handler's field: with no timer referenced every
  timer of the store has been cleared; with timer \<open>t\<close> referenced it is the youngest timer
  and the only one not cleared.
\<close>

definition timer_inv :: "WebSocketHandler \<Rightarrow> bool" where
  "timer_inv h =
     (case wsReconnectInterval h of
        None \<Rightarrow> timers h = replicate (length (timers h)) False
      | Some t \<Rightarrow> timers h = replicate t False @ [True])"

section \<open>The tool handler (index.ts)\<close>

record GamepadServer =
  lastEvents :: "jsval list"
  wsHandler :: WebSocketHandler

text \<open>The constructor: empty \<open>lastEvents\<close>, a fresh handler, then \<open>connect()\<close>.\<close>

definition new_GamepadServer :: "bool \<Rightarrow> GamepadServer" where
  "new_GamepadServer created =
     \<lparr>lastEvents = [], wsHandler = connect created new_WebSocketHandler\<rparr>"

text \<open>The object serialised into the text of a successful tool result.\<close>

record ToolResult =
  success :: bool
  eventsReceived :: nat
  message :: string

text \<open>\<open>'events' in args\<close> for a truthy \<open>args\<close>: a primitive operand throws.\<close>

fun events_in :: "jsval \<Rightarrow> error + bool" where
  "events_in (JObj kvs) = Inr (map_of kvs ''events'' \<noteq> None)"
| "events_in (JArr xs) = Inr False"
| "events_in v = Inl TypeError"

text \<open>
  \<open>handleCallTool\<close> of the single-file server and of the two later versions of index.ts
  (their \<open>send_gamepad_event\<close> cases are the same statement for statement).
\<close>

definition handleCallTool ::
  "string \<Rightarrow> jsval \<Rightarrow> GamepadServer \<Rightarrow> GamepadServer \<times> (error + ToolResult)" where
  "handleCallTool name args srv =
    (if name = ''send_gamepad_event'' then
       (if \<not> truthy args then
          (srv, Inl (McpError InvalidParams
             ''Invalid event message format: missing or invalid events array''))
        else
          (case events_in args of
             Inl err \<Rightarrow> (srv, Inl err)
           | Inr present \<Rightarrow>
               (case (present, getprop args ''events'') of
                  (True, JArr events) \<Rightarrow>
                    (case map_validateEvent events of
                       Inl err \<Rightarrow> (srv, Inl err)
                     | Inr validatedEvents \<Rightarrow>
                         (srv\<lparr>lastEvents := validatedEvents,
                              wsHandler := send (JArr validatedEvents) (wsHandler srv)\<rparr>,
                          Inr \<lparr>success = True,
                               eventsReceived = length validatedEvents,
                               message = ''Events validated and sent successfully''\<rparr>))
                | _ \<Rightarrow>
                    (srv, Inl (McpError InvalidParams
                       ''Invalid event message format: missing or invalid events array'')))))
     else (srv, Inl (McpError MethodNotFound (''Unknown tool: '' @ name))))"

text \<open>
  The first version of index.ts in the modular layout checks the values once more, in a
  \<open>forEach\<close> placed after the assignment to \<open>lastEvents\<close> and after \<open>send\<close>.
  \<open>checkValue\<close> is the callback of that \<open>forEach\<close>, \<open>forEach_checkValue\<close> the loop.
\<close>

definition checkValue :: "jsval \<Rightarrow> error option" where
  "checkValue event =
    (case getprop event ''type'' of
       JStr type \<Rightarrow>
         if type = ''button'' \<or> type = ''mouseButton'' \<or> type = ''keyboard'' then
           (if typeof (getprop event ''value'') \<noteq> ''boolean''
            then Some (McpError InvalidParams (type @ '' events require boolean values''))
            else None)
         else if type = ''axis'' then
           (case getprop event ''value'' of
              JNum v \<Rightarrow>
                if v < -1 \<or> v > 1
                then Some (McpError InvalidParams ''Axis values must be numbers between -1 and 1'')
                else None
            | _ \<Rightarrow> Some (McpError InvalidParams ''Axis values must be numbers between -1 and 1''))
         else if type = ''trigger'' then
           (case getprop event ''value'' of
              JNum v \<Rightarrow>
                if v < 0 \<or> v > 1
                then Some (McpError InvalidParams ''Trigger values must be numbers between 0 and 1'')
                else None
            | _ \<Rightarrow> Some (McpError InvalidParams ''Trigger values must be numbers between 0 and 1''))
         else None
     | _ \<Rightarrow> None)"

fun forEach_checkValue :: "jsval list \<Rightarrow> error option" where
  "forEach_checkValue [] = None"
| "forEach_checkValue (event # events) =
     (case checkValue event of
        Some err \<Rightarrow> Some err
      | None \<Rightarrow> forEach_checkValue events)"

definition handleCallTool_checked ::
  "string \<Rightarrow> jsval \<Rightarrow> GamepadServer \<Rightarrow> GamepadServer \<times> (error + ToolResult)" where
  "handleCallTool_checked name args srv =
    (if name = ''send_gamepad_event'' then
       (if \<not> truthy args then
          (srv, Inl (McpError InvalidParams
             ''Invalid event message format: missing or invalid events array''))
        else
          (case events_in args of
             Inl err \<Rightarrow> (srv, Inl err)
           | Inr present \<Rightarrow>
               (case (present, getprop args ''events'') of
                  (True, JArr events) \<Rightarrow>
                    (case map_validateEvent events of
                       Inl err \<Rightarrow> (srv, Inl err)
                     | Inr validatedEvents \<Rightarrow>
                         (let srv' = srv\<lparr>lastEvents := validatedEvents,
                                wsHandler := send (JArr validatedEvents) (wsHandler srv)\<rparr>
                          in case forEach_checkValue validatedEvents of
                               Some err \<Rightarrow> (srv', Inl err)
                             | None \<Rightarrow>
                                 (srv', Inr \<lparr>success = True,
                                   eventsReceived = length validatedEvents,
                                   message = ''Events validated and sent successfully''\<rparr>)))
                | _ \<Rightarrow>
                    (srv, Inl (McpError InvalidParams
                       ''Invalid event message format: missing or invalid events array'')))))
     else (srv, Inl (McpError MethodNotFound (''Unknown tool: '' @ name))))"

section \<open>Sample events\<close>

text \<open>
  Two events of the examples published with the tool (press A; move the left stick), and a
  trigger event with a negative value.
\<close>

definition press_A :: jsval where
  "press_A = JObj [(''type'', JStr ''button''), (''code'', JStr ''A''), (''value'', JBool True)]"

definition move_leftX :: jsval where
  "move_leftX = JObj [(''type'', JStr ''axis''), (''code'', JStr ''leftX''), (''value'', JNum (1 / 2))]"

definition leftTrigger_negative :: jsval where
  "leftTrigger_negative =
     JObj [(''type'', JStr ''trigger''), (''code'', JStr ''leftTrigger''), (''value'', JNum (- 1 / 2))]"

text \<open>A server whose socket has opened, and one whose socket is still connecting.\<close>

definition connected_server :: GamepadServer where
  "connected_server =
     \<lparr>lastEvents = [], wsHandler = step (Open 0) (connect True new_WebSocketHandler)\<rparr>"

section \<open>Properties of the validator\<close>

text \<open>
  A property read that yields a string can only come from an object, so an event whose
  \<open>type\<close> is a string has passed the first check of \<open>validateEvent\<close>.
\<close>

lemma getprop_JStr_object:
  "getprop e k = JStr s \<Longrightarrow> typeof e = ''object'' \<and> e \<noteq> JNull"
  by (cases e) simp_all

lemma validateEvent_strings:
  assumes "getprop e ''type'' = JStr t" and "getprop e ''code'' = JStr c"
  shows "validateEvent e =
     (if t = ''button'' \<or> t = ''mouseButton'' \<or> t = ''keyboard'' then
        (if \<not> isValidButtonCode t c then
           Inl (McpError InvalidParams (''Invalid '' @ t @ '' code: '' @ c))
         else if typeof (getprop e ''value'') \<noteq> ''boolean'' then
           Inl (McpError InvalidParams (''Invalid value for '' @ t @ '': must be boolean''))
         else Inr e)
      else if t = ''axis'' \<or> t = ''trigger'' then
        (if \<not> isValidSliderCode t c then
           Inl (McpError InvalidParams (''Invalid '' @ t @ '' code: '' @ c))
         else
           (case getprop e ''value'' of
              JNum v \<Rightarrow>
                if v < -1 \<or> v > 1 then
                  Inl (McpError InvalidParams
                    (''Invalid value for '' @ t @ '': must be number between -1 and 1''))
                else Inr e
            | _ \<Rightarrow>
                Inl (McpError InvalidParams
                  (''Invalid value for '' @ t @ '': must be number between -1 and 1''))))
      else Inl (McpError InvalidParams (''Invalid event type: '' @ t)))"
proof -
  have obj: "typeof e = ''object''" "e \<noteq> JNull"
    using getprop_JStr_object[OF assms(1)] by simp_all
  have m1: "List.member [''button'', ''mouseButton'', ''keyboard''] t
      \<longleftrightarrow> (t = ''button'' \<or> t = ''mouseButton'' \<or> t = ''keyboard'')"
    by auto
  have m2: "List.member [''axis'', ''trigger''] t \<longleftrightarrow> (t = ''axis'' \<or> t = ''trigger'')"
    by auto
  show ?thesis
    by (simp add: validateEvent_def assms obj)
qed

lemma validateEvent_not_strings:
  "(\<nexists>t. getprop e ''type'' = JStr t) \<or> (\<nexists>c. getprop e ''code'' = JStr c) \<Longrightarrow>
   \<exists>err. validateEvent e = Inl err"
  by (cases "getprop e ''type''"; cases "getprop e ''code''") (simp_all add: validateEvent_def)

lemma isValidButtonCode_button:
  "isValidButtonCode ''button'' c \<longleftrightarrow> c \<in> set ButtonCode"
  by (auto simp: isValidButtonCode_def VALID_BUTTON_EVENTS_def ButtonCode_def)

lemma isValidButtonCode_mouseButton:
  "isValidButtonCode ''mouseButton'' c \<longleftrightarrow> c \<in> set MouseButtonCode"
  by (auto simp: isValidButtonCode_def VALID_BUTTON_EVENTS_def MouseButtonCode_def)

lemma isValidButtonCode_keyboard:
  "isValidButtonCode ''keyboard'' c \<longleftrightarrow> c \<in> set KeyboardCode"
  by (auto simp: isValidButtonCode_def VALID_BUTTON_EVENTS_def KeyboardCode_def)

lemma isValidSliderCode_axis:
  "isValidSliderCode ''axis'' c \<longleftrightarrow> c \<in> set AxisCode"
  by (auto simp: isValidSliderCode_def VALID_SLIDER_EVENTS_def AxisCode_def)

lemma isValidSliderCode_trigger:
  "isValidSliderCode ''trigger'' c \<longleftrightarrow> c \<in> set TriggerCode"
  by (auto simp: isValidSliderCode_def VALID_SLIDER_EVENTS_def TriggerCode_def)

lemma validateEvent_Inr: "validateEvent e = Inr v \<Longrightarrow> v = e"
proof -
  assume a: "validateEvent e = Inr v"
  obtain t c where tc: "getprop e ''type'' = JStr t" "getprop e ''code'' = JStr c"
    using a validateEvent_not_strings[of e] by fastforce
  show ?thesis
    using a unfolding validateEvent_strings[OF tc]
    by (simp split: if_splits jsval.splits)
qed

lemma map_validateEvent_Inr: "map_validateEvent es = Inr vs \<Longrightarrow> vs = es"
  by (induction es arbitrary: vs) (auto split: sum.splits dest: validateEvent_Inr)

lemma map_validateEvent_all_valid:
  "(\<forall>e \<in> set es. \<exists>v. validateEvent e = Inr v) \<Longrightarrow> map_validateEvent es = Inr es"
  by (induction es) (auto split: sum.splits dest: validateEvent_Inr)

lemma map_validateEvent_invalid:
  "e \<in> set es \<Longrightarrow> validateEvent e = Inl err \<Longrightarrow> \<exists>err'. map_validateEvent es = Inl err'"
  by (induction es) (auto split: sum.splits)

lemma validateEvent_ok_iff:
  assumes "getprop e ''type'' = JStr t" and "getprop e ''code'' = JStr c"
  shows "\<not> isl (validateEvent e) \<longleftrightarrow>
     ((t = ''button'' \<or> t = ''mouseButton'' \<or> t = ''keyboard'') \<and> isValidButtonCode t c
        \<and> (\<exists>b. getprop e ''value'' = JBool b))
     \<or> ((t = ''axis'' \<or> t = ''trigger'') \<and> isValidSliderCode t c
        \<and> (\<exists>r. getprop e ''value'' = JNum r \<and> -1 \<le> r \<and> r \<le> 1))"
  unfolding validateEvent_strings[OF assms]
  by (cases "getprop e ''value''") (simp_all add: not_less)

lemma validateEvent_result:
  "(\<not> isl (validateEvent e) \<longrightarrow> validateEvent e = Inr e)
   \<and> (isl (validateEvent e) \<longrightarrow> (\<exists>err. validateEvent e = Inl err))"
  by (cases "validateEvent e") (auto dest: validateEvent_Inr)

lemma validateEvent_slider_iff:
  assumes "getprop e ''type'' = JStr t" and "getprop e ''code'' = JStr c"
    and "t = ''axis'' \<or> t = ''trigger''"
  shows "\<not> isl (validateEvent e) \<longleftrightarrow>
     isValidSliderCode t c \<and> (\<exists>r. getprop e ''value'' = JNum r \<and> -1 \<le> r \<and> r \<le> 1)"
proof -
  have "\<not> (t = ''button'' \<or> t = ''mouseButton'' \<or> t = ''keyboard'')"
    using assms(3) by auto
  then show ?thesis
    unfolding validateEvent_ok_iff[OF assms(1,2)] using assms(3) by simp
qed

lemma validateEvent_button_iff:
  assumes "getprop e ''type'' = JStr t" and "getprop e ''code'' = JStr c"
    and "t = ''button'' \<or> t = ''mouseButton'' \<or> t = ''keyboard''"
  shows "\<not> isl (validateEvent e) \<longleftrightarrow>
     isValidButtonCode t c \<and> (\<exists>b. getprop e ''value'' = JBool b)"
proof -
  have "\<not> (t = ''axis'' \<or> t = ''trigger'')"
    using assms(3) by auto
  then show ?thesis
    unfolding validateEvent_ok_iff[OF assms(1,2)] using assms(3) by simp
qed

text \<open>
  C2. For every raw event whose \<open>type\<close> is \<open>axis\<close> or \<open>trigger\<close>, \<open>validateEvent\<close>
  succeeds (returning the event itself) if and only if \<open>code\<close> is a string of that type's
  code set and \<open>value\<close> is a number in the closed interval from -1 to 1; otherwise it
  throws. The interval is the same for triggers and for axes.
\<close>

theorem validateEvent_axis_trigger:
  assumes "getprop e ''type'' = JStr t" and "t = ''axis'' \<or> t = ''trigger''"
  shows "if (\<exists>c r. getprop e ''code'' = JStr c
              \<and> c \<in> set (if t = ''axis'' then AxisCode else TriggerCode)
              \<and> getprop e ''value'' = JNum r \<and> -1 \<le> r \<and> r \<le> 1)
         then validateEvent e = Inr e
         else (\<exists>err. validateEvent e = Inl err)"
proof -
  let ?P = "\<exists>c r. getprop e ''code'' = JStr c
              \<and> c \<in> set (if t = ''axis'' then AxisCode else TriggerCode)
              \<and> getprop e ''value'' = JNum r \<and> -1 \<le> r \<and> r \<le> 1"
  have codes: "isValidSliderCode t c \<longleftrightarrow> c \<in> set (if t = ''axis'' then AxisCode else TriggerCode)"
    for c
  proof (cases "t = ''axis''")
    case True
    then show ?thesis by (simp add: isValidSliderCode_axis)
  next
    case False
    with assms(2) have "t = ''trigger''" by simp
    then show ?thesis by (simp add: isValidSliderCode_trigger)
  qed
  have iff: "\<not> isl (validateEvent e) \<longleftrightarrow> ?P"
  proof (cases "\<exists>c. getprop e ''code'' = JStr c")
    case False
    then have "isl (validateEvent e)"
      using validateEvent_not_strings[of e] by auto
    moreover have "\<not> ?P" using False by blast
    ultimately show ?thesis by blast
  next
    case True
    then obtain c where c: "getprop e ''code'' = JStr c" by blast
    have "?P \<longleftrightarrow> c \<in> set (if t = ''axis'' then AxisCode else TriggerCode)
        \<and> (\<exists>r. getprop e ''value'' = JNum r \<and> -1 \<le> r \<and> r \<le> 1)"
      by (simp add: c)
    then show ?thesis
      using validateEvent_slider_iff[OF assms(1) c assms(2)] codes[of c] by blast
  qed
  show ?thesis
  proof (cases ?P)
    case True
    then have "validateEvent e = Inr e"
      using iff validateEvent_result[of e] by blast
    with True show ?thesis by (simp only: if_True)
  next
    case False
    then have "\<exists>err. validateEvent e = Inl err"
      using iff validateEvent_result[of e] by blast
    with False show ?thesis by (simp only: if_False)
  qed
qed

theorem validateEvent_axis_trigger_witness:
  "getprop (JObj [(''type'', JStr ''axis''), (''code'', JStr ''leftX''), (''value'', JNum 1)]) ''type''
     = JStr ''axis''
   \<and> validateEvent (JObj [(''type'', JStr ''axis''), (''code'', JStr ''leftX''), (''value'', JNum 1)])
     = Inr (JObj [(''type'', JStr ''axis''), (''code'', JStr ''leftX''), (''value'', JNum 1)])
   \<and> validateEvent (JObj [(''type'', JStr ''trigger''), (''code'', JStr ''leftTrigger''),
         (''value'', JNum (-1))])
     = Inr (JObj [(''type'', JStr ''trigger''), (''code'', JStr ''leftTrigger''),
         (''value'', JNum (-1))])
   \<and> (\<exists>err. validateEvent (JObj [(''type'', JStr ''axis''), (''code'', JStr ''leftX''),
         (''value'', JNum (10001 / 10000))]) = Inl err)
   \<and> (\<exists>err. validateEvent (JObj [(''type'', JStr ''trigger''), (''code'', JStr ''rightTrigger''),
         (''value'', JNum (- 10001 / 10000))]) = Inl err)"
  using
    validateEvent_axis_trigger
      [of "JObj [(''type'', JStr ''axis''), (''code'', JStr ''leftX''), (''value'', JNum 1)]" "''axis''"]
    validateEvent_axis_trigger
      [of "JObj [(''type'', JStr ''trigger''), (''code'', JStr ''leftTrigger''),
         (''value'', JNum (-1))]" "''trigger''"]
    validateEvent_axis_trigger
      [of "JObj [(''type'', JStr ''axis''), (''code'', JStr ''leftX''),
         (''value'', JNum (10001 / 10000))]" "''axis''"]
    validateEvent_axis_trigger
      [of "JObj [(''type'', JStr ''trigger''), (''code'', JStr ''rightTrigger''),
         (''value'', JNum (- 10001 / 10000))]" "''trigger''"]
  by (simp add: AxisCode_def TriggerCode_def)

text \<open>
  C4. For every raw event whose \<open>type\<close> is \<open>button\<close>, \<open>mouseButton\<close> or \<open>keyboard\<close>,
  \<open>validateEvent\<close> succeeds (returning the event itself) if and only if \<open>code\<close> is a string
  of that type's code set and \<open>value\<close> is a boolean; otherwise it throws. A code of another
  type's set only, such as \<open>leftX\<close> or \<open>space\<close> under \<open>button\<close>, is therefore rejected.
\<close>

theorem validateEvent_button_mouse_keyboard:
  assumes "getprop e ''type'' = JStr t"
    and "t = ''button'' \<or> t = ''mouseButton'' \<or> t = ''keyboard''"
  shows "if (\<exists>c b. getprop e ''code'' = JStr c
              \<and> c \<in> set (if t = ''button'' then ButtonCode
                           else if t = ''mouseButton'' then MouseButtonCode
                           else KeyboardCode)
              \<and> getprop e ''value'' = JBool b)
         then validateEvent e = Inr e
         else (\<exists>err. validateEvent e = Inl err)"
proof -
  let ?codes = "if t = ''button'' then ButtonCode
                else if t = ''mouseButton'' then MouseButtonCode else KeyboardCode"
  let ?P = "\<exists>c b. getprop e ''code'' = JStr c \<and> c \<in> set ?codes \<and> getprop e ''value'' = JBool b"
  have codes: "isValidButtonCode t c \<longleftrightarrow> c \<in> set ?codes" for c
  proof -
    consider "t = ''button''" | "t = ''mouseButton''" | "t = ''keyboard''"
      using assms(2) by blast
    then show ?thesis
    proof cases
      case 1
      then show ?thesis by (simp add: isValidButtonCode_button)
    next
      case 2
      then show ?thesis by (simp add: isValidButtonCode_mouseButton)
    next
      case 3
      then show ?thesis by (simp add: isValidButtonCode_keyboard)
    qed
  qed
  have iff: "\<not> isl (validateEvent e) \<longleftrightarrow> ?P"
  proof (cases "\<exists>c. getprop e ''code'' = JStr c")
    case False
    then have "isl (validateEvent e)"
      using validateEvent_not_strings[of e] by auto
    moreover have "\<not> ?P" using False by blast
    ultimately show ?thesis by blast
  next
    case True
    then obtain c where c: "getprop e ''code'' = JStr c" by blast
    have "?P \<longleftrightarrow> c \<in> set ?codes \<and> (\<exists>b. getprop e ''value'' = JBool b)"
      by (simp add: c)
    then show ?thesis
      using validateEvent_button_iff[OF assms(1) c assms(2)] codes[of c] by blast
  qed
  show ?thesis
  proof (cases ?P)
    case True
    then have "validateEvent e = Inr e"
      using iff validateEvent_result[of e] by blast
    with True show ?thesis by (simp only: if_True)
  next
    case False
    then have "\<exists>err. validateEvent e = Inl err"
      using iff validateEvent_result[of e] by blast
    with False show ?thesis by (simp only: if_False)
  qed
qed

theorem validateEvent_button_mouse_keyboard_witness:
  "getprop (JObj [(''type'', JStr ''button''), (''code'', JStr ''A''), (''value'', JBool True)]) ''type''
     = JStr ''button''
   \<and> validateEvent (JObj [(''type'', JStr ''button''), (''code'', JStr ''A''), (''value'', JBool True)])
     = Inr (JObj [(''type'', JStr ''button''), (''code'', JStr ''A''), (''value'', JBool True)])
   \<and> validateEvent (JObj [(''type'', JStr ''keyboard''), (''code'', JStr ''space''),
         (''value'', JBool False)])
     = Inr (JObj [(''type'', JStr ''keyboard''), (''code'', JStr ''space''),
         (''value'', JBool False)])
   \<and> (\<exists>err. validateEvent (JObj [(''type'', JStr ''button''), (''code'', JStr ''leftX''),
         (''value'', JBool True)]) = Inl err)
   \<and> (\<exists>err. validateEvent (JObj [(''type'', JStr ''button''), (''code'', JStr ''space''),
         (''value'', JBool True)]) = Inl err)
   \<and> (\<exists>err. validateEvent (JObj [(''type'', JStr ''mouseButton''), (''code'', JStr ''leftClick''),
         (''value'', JNum 1)]) = Inl err)"
  using
    validateEvent_button_mouse_keyboard
      [of "JObj [(''type'', JStr ''button''), (''code'', JStr ''A''), (''value'', JBool True)]"
          "''button''"]
    validateEvent_button_mouse_keyboard
      [of "JObj [(''type'', JStr ''keyboard''), (''code'', JStr ''space''), (''value'', JBool False)]"
          "''keyboard''"]
    validateEvent_button_mouse_keyboard
      [of "JObj [(''type'', JStr ''button''), (''code'', JStr ''leftX''), (''value'', JBool True)]"
          "''button''"]
    validateEvent_button_mouse_keyboard
      [of "JObj [(''type'', JStr ''button''), (''code'', JStr ''space''), (''value'', JBool True)]"
          "''button''"]
    validateEvent_button_mouse_keyboard
      [of "JObj [(''type'', JStr ''mouseButton''), (''code'', JStr ''leftClick''), (''value'', JNum 1)]"
          "''mouseButton''"]
  by (simp add: ButtonCode_def MouseButtonCode_def KeyboardCode_def ex_bool_eq)

text \<open>
  C7. When every event of a batch is valid on its own, validating the batch returns the
  batch itself: the same events, unchanged, in the same order. Validating the result again
  gives the same result.
\<close>

theorem map_validateEvent_valid_batch:
  assumes "\<forall>e \<in> set es. \<exists>v. validateEvent e = Inr v"
  shows "map_validateEvent es = Inr es
    \<and> (\<forall>vs. map_validateEvent es = Inr vs \<longrightarrow> vs = es \<and> map_validateEvent vs = Inr vs)"
  using map_validateEvent_all_valid[OF assms] by simp

lemma validateEvent_press_A: "validateEvent press_A = Inr press_A"
  unfolding press_A_def
  by (simp add: validateEvent_strings[of _ "''button''" "''A''"] isValidButtonCode_button ButtonCode_def)

lemma validateEvent_move_leftX: "validateEvent move_leftX = Inr move_leftX"
  unfolding move_leftX_def
  by (simp add: validateEvent_strings[of _ "''axis''" "''leftX''"] isValidSliderCode_axis AxisCode_def)

lemma validateEvent_leftTrigger_negative:
  "validateEvent leftTrigger_negative = Inr leftTrigger_negative"
  unfolding leftTrigger_negative_def
  by (simp add: validateEvent_strings[of _ "''trigger''" "''leftTrigger''"]
        isValidSliderCode_trigger TriggerCode_def)

theorem map_validateEvent_valid_batch_witness:
  "(\<exists>v. validateEvent press_A = Inr v) \<and> (\<exists>v. validateEvent move_leftX = Inr v)
   \<and> map_validateEvent [press_A, move_leftX] = Inr [press_A, move_leftX]"
proof -
  have p: "\<exists>v. validateEvent press_A = Inr v" "\<exists>v. validateEvent move_leftX = Inr v"
    by (simp_all add: validateEvent_press_A validateEvent_move_leftX)
  have h: "\<forall>e \<in> set [press_A, move_leftX]. \<exists>v. validateEvent e = Inr v"
    by (simp add: validateEvent_press_A validateEvent_move_leftX)
  from p map_validateEvent_valid_batch[OF h, THEN conjunct1]
  show ?thesis by (intro conjI)
qed

section \<open>Properties of the connection manager\<close>

lemma connected_server_simps:
  "wsHandler connected_server =
     \<lparr>ws = Some 0, wsReconnectInterval = None,
      sockets = [\<lparr>readyState = OPEN, sent = []\<rparr>], timers = []\<rparr>"
  "lastEvents connected_server = []"
  by (simp_all add: connected_server_def connect_def new_WebSocketHandler_def ws_is_open_def
        set_readyState_def handleOpen_def)

lemma connected_iff:
  "connectionState h = Connected \<longleftrightarrow>
     (\<exists>i. ws h = Some i \<and> i < length (sockets h) \<and> readyState (sockets h ! i) = OPEN)"
  by (auto simp: connectionState_def split: option.splits)

lemma send_not_connected: "connectionState h \<noteq> Connected \<Longrightarrow> send event h = h"
  by (auto simp: connected_iff send_def split: option.splits)

lemma send_connected:
  assumes "ws h = Some i" and "i < length (sockets h)" and "readyState (sockets h ! i) = OPEN"
  shows "send event h =
     h\<lparr>sockets := (sockets h)[i := (sockets h ! i)
        \<lparr>sent := sent (sockets h ! i)
            @ [JObj [(''events'', JArr (case event of JArr xs \<Rightarrow> xs | _ \<Rightarrow> [event]))]]\<rparr>]\<rparr>"
  using assms by (simp add: send_def Let_def)

text \<open>
  C10. \<open>send\<close> takes one event or an array of events. When the manager is Connected it
  hands exactly one frame to the current socket, the serialisation of an object whose only
  property \<open>events\<close> is an array: the argument itself when it is an array (same elements,
  same order), a one-element array holding the argument otherwise. No other socket
  receives anything.
\<close>

theorem send_transmits_one_frame:
  assumes "connectionState h = Connected" and "ws h = Some i"
  shows "(\<forall>xs. event = JArr xs \<longrightarrow>
            sent (sockets (send event h) ! i) = sent (sockets h ! i) @ [JObj [(''events'', JArr xs)]])
     \<and> ((\<nexists>xs. event = JArr xs) \<longrightarrow>
            sent (sockets (send event h) ! i) = sent (sockets h ! i) @ [JObj [(''events'', JArr [event])]])
     \<and> length (sockets (send event h)) = length (sockets h)
     \<and> (\<forall>j < length (sockets h). j \<noteq> i \<longrightarrow> sockets (send event h) ! j = sockets h ! j)
     \<and> readyState (sockets (send event h) ! i) = OPEN
     \<and> ws (send event h) = ws h"
proof -
  from assms have i: "i < length (sockets h)" "readyState (sockets h ! i) = OPEN"
    by (auto simp: connected_iff)
  show ?thesis
    unfolding send_connected[OF assms(2) i]
    using i by (cases event) simp_all
qed

theorem send_transmits_one_frame_witness:
  "connectionState (wsHandler connected_server) = Connected
   \<and> ws (wsHandler connected_server) = Some 0
   \<and> sent (sockets (send press_A (wsHandler connected_server)) ! 0)
       = [JObj [(''events'', JArr [press_A])]]
   \<and> sent (sockets (send (JArr [press_A, move_leftX]) (wsHandler connected_server)) ! 0)
       = [JObj [(''events'', JArr [press_A, move_leftX])]]"
proof -
  have c: "connectionState (wsHandler connected_server) = Connected"
    by (simp add: connected_server_simps connectionState_def)
  have w: "ws (wsHandler connected_server) = Some 0"
    by (simp add: connected_server_simps)
  have s0: "sent (sockets (wsHandler connected_server) ! 0) = []"
    by (simp add: connected_server_simps)
  have na: "\<nexists>xs. press_A = JArr xs"
    by (simp add: press_A_def)
  from send_transmits_one_frame[OF c w, of press_A] na s0
  have f1: "sent (sockets (send press_A (wsHandler connected_server)) ! 0)
       = [JObj [(''events'', JArr [press_A])]]"
    by simp
  from send_transmits_one_frame[OF c w, of "JArr [press_A, move_leftX]"] s0
  have f2: "sent (sockets (send (JArr [press_A, move_leftX]) (wsHandler connected_server)) ! 0)
       = [JObj [(''events'', JArr [press_A, move_leftX])]]"
    by simp
  from c w f1 f2 show ?thesis by simp
qed

section \<open>Properties of the tool handler\<close>

lemma getprop_events_JArr:
  "getprop args ''events'' = JArr es \<Longrightarrow>
     truthy args \<and> events_in args = Inr True"
  by (cases args) (auto split: option.splits)

lemma handleCallTool_valid:
  assumes "getprop args ''events'' = JArr es" and "map_validateEvent es = Inr es"
  shows "handleCallTool ''send_gamepad_event'' args srv =
     (srv\<lparr>lastEvents := es, wsHandler := send (JArr es) (wsHandler srv)\<rparr>,
      Inr \<lparr>success = True, eventsReceived = length es,
           message = ''Events validated and sent successfully''\<rparr>)"
  using getprop_events_JArr[OF assms(1)] assms
  by (simp add: handleCallTool_def)

lemma handleCallTool_invalid:
  assumes "getprop args ''events'' = JArr es" and "map_validateEvent es = Inl err"
  shows "handleCallTool ''send_gamepad_event'' args srv = (srv, Inl err)"
  using getprop_events_JArr[OF assms(1)] assms
  by (simp add: handleCallTool_def)

lemma new_GamepadServer_simps:
  "wsHandler (new_GamepadServer True) =
     \<lparr>ws = Some 0, wsReconnectInterval = None,
      sockets = [\<lparr>readyState = CONNECTING, sent = []\<rparr>], timers = []\<rparr>"
  "lastEvents (new_GamepadServer True) = []"
  by (simp_all add: new_GamepadServer_def connect_def new_WebSocketHandler_def ws_is_open_def)

text \<open>
  C9. A batch whose events are all valid, submitted while the manager is not Connected, is
  answered with the success result whose \<open>eventsReceived\<close> is the number of events. No
  error reaches the caller, the batch becomes \<open>lastEvents\<close>, and the connection manager is
  left exactly as it was: nothing is handed to any socket.
\<close>

theorem handleCallTool_while_not_connected:
  assumes "getprop args ''events'' = JArr es"
    and "\<forall>e \<in> set es. \<exists>v. validateEvent e = Inr v"
    and "connectionState (wsHandler srv) \<noteq> Connected"
  shows "handleCallTool ''send_gamepad_event'' args srv =
     (srv\<lparr>lastEvents := es\<rparr>,
      Inr \<lparr>success = True, eventsReceived = length es,
           message = ''Events validated and sent successfully''\<rparr>)"
proof -
  have "map_validateEvent es = Inr es"
    using assms(2) by (rule map_validateEvent_all_valid)
  then show ?thesis
    using handleCallTool_valid[OF assms(1), of srv] send_not_connected[OF assms(3)]
    by simp
qed

theorem handleCallTool_while_not_connected_witness:
  "getprop (JObj [(''events'', JArr [press_A])]) ''events'' = JArr [press_A]
   \<and> (\<exists>v. validateEvent press_A = Inr v)
   \<and> connectionState (wsHandler (new_GamepadServer True)) \<noteq> Connected
   \<and> handleCallTool ''send_gamepad_event'' (JObj [(''events'', JArr [press_A])])
        (new_GamepadServer True) =
     ((new_GamepadServer True)\<lparr>lastEvents := [press_A]\<rparr>,
      Inr \<lparr>success = True, eventsReceived = 1,
           message = ''Events validated and sent successfully''\<rparr>)"
proof -
  have a: "getprop (JObj [(''events'', JArr [press_A])]) ''events'' = JArr [press_A]"
    by simp
  have b: "\<forall>e \<in> set [press_A]. \<exists>v. validateEvent e = Inr v"
    by (simp add: validateEvent_press_A)
  have c: "connectionState (wsHandler (new_GamepadServer True)) \<noteq> Connected"
    by (simp add: new_GamepadServer_simps connectionState_def)
  from handleCallTool_while_not_connected[OF a b c]
  have d: "handleCallTool ''send_gamepad_event'' (JObj [(''events'', JArr [press_A])])
        (new_GamepadServer True) =
     ((new_GamepadServer True)\<lparr>lastEvents := [press_A]\<rparr>,
      Inr \<lparr>success = True, eventsReceived = 1,
           message = ''Events validated and sent successfully''\<rparr>)"
    by simp
  have b': "\<exists>v. validateEvent press_A = Inr v"
    by (simp add: validateEvent_press_A)
  from a b' c d show ?thesis by (intro conjI)
qed

lemma handleCallTool_checked_valid:
  assumes "getprop args ''events'' = JArr es" and "map_validateEvent es = Inr es"
  shows "handleCallTool_checked ''send_gamepad_event'' args srv =
     (srv\<lparr>lastEvents := es, wsHandler := send (JArr es) (wsHandler srv)\<rparr>,
      case forEach_checkValue es of
        Some err \<Rightarrow> Inl err
      | None \<Rightarrow> Inr \<lparr>success = True, eventsReceived = length es,
           message = ''Events validated and sent successfully''\<rparr>)"
  using getprop_events_JArr[OF assms(1)] assms
  by (simp add: handleCallTool_checked_def Let_def split: option.splits)

lemma handleCallTool_checked_invalid:
  assumes "getprop args ''events'' = JArr es" and "map_validateEvent es = Inl err"
  shows "handleCallTool_checked ''send_gamepad_event'' args srv = (srv, Inl err)"
  using getprop_events_JArr[OF assms(1)] assms
  by (simp add: handleCallTool_checked_def)

lemma not_array_rejected:
  assumes "args = JUndefined \<or> args = JNull
     \<or> (\<exists>kvs. args = JObj kvs \<and> (\<nexists>xs. map_of kvs ''events'' = Some (JArr xs)))"
  shows "handleCallTool ''send_gamepad_event'' args srv =
       (srv, Inl (McpError InvalidParams
          ''Invalid event message format: missing or invalid events array''))"
    and "handleCallTool_checked ''send_gamepad_event'' args srv =
       (srv, Inl (McpError InvalidParams
          ''Invalid event message format: missing or invalid events array''))"
proof -
  consider "\<not> truthy args"
    | kvs where "args = JObj kvs" "map_of kvs ''events'' = None"
    | kvs v where "args = JObj kvs" "map_of kvs ''events'' = Some v" "\<nexists>xs. v = JArr xs"
    using assms by (cases args) (auto split: option.splits)
  then show "handleCallTool ''send_gamepad_event'' args srv =
       (srv, Inl (McpError InvalidParams
          ''Invalid event message format: missing or invalid events array''))"
  proof cases
    case 1
    then show ?thesis by (simp add: handleCallTool_def)
  next
    case 2
    then show ?thesis by (simp add: handleCallTool_def)
  next
    case 3
    then show ?thesis by (cases v) (simp_all add: handleCallTool_def)
  qed
  consider "\<not> truthy args"
    | kvs where "args = JObj kvs" "map_of kvs ''events'' = None"
    | kvs v where "args = JObj kvs" "map_of kvs ''events'' = Some v" "\<nexists>xs. v = JArr xs"
    using assms by (cases args) (auto split: option.splits)
  then show "handleCallTool_checked ''send_gamepad_event'' args srv =
       (srv, Inl (McpError InvalidParams
          ''Invalid event message format: missing or invalid events array''))"
  proof cases
    case 1
    then show ?thesis by (simp add: handleCallTool_checked_def)
  next
    case 2
    then show ?thesis by (simp add: handleCallTool_checked_def)
  next
    case 3
    then show ?thesis by (cases v) (simp_all add: handleCallTool_checked_def)
  qed
qed

text \<open>
  C3, as stated, fails for the empty batch: no version of the handler tests the length of
  \<open>args.events\<close>, so an empty array passes the envelope check, validates to the empty
  batch and is answered with the success result, \<open>eventsReceived\<close> being 0.
\<close>

theorem handleCallTool_empty_batch_succeeds:
  "snd (handleCallTool ''send_gamepad_event'' (JObj [(''events'', JArr [])]) (new_GamepadServer True))
     = Inr \<lparr>success = True, eventsReceived = 0,
            message = ''Events validated and sent successfully''\<rparr>"
  by (simp add: handleCallTool_def)

text \<open>
  C3, amended. When the arguments are absent, or have no \<open>events\<close> property, or have one
  that is not an array, the call is rejected with \<open>InvalidParams\<close> and the server is left
  as it was. An empty array is accepted: it becomes \<open>lastEvents\<close>, is passed to \<open>send\<close>,
  and the answer is the success result with \<open>eventsReceived\<close> equal to 0. Both versions of
  the handler agree on this.
\<close>

theorem handleCallTool_envelope:
  "((args = JUndefined \<or> args = JNull
      \<or> (\<exists>kvs. args = JObj kvs \<and> (\<nexists>xs. map_of kvs ''events'' = Some (JArr xs))))
     \<longrightarrow> handleCallTool ''send_gamepad_event'' args srv =
           (srv, Inl (McpError InvalidParams
              ''Invalid event message format: missing or invalid events array''))
       \<and> handleCallTool_checked ''send_gamepad_event'' args srv =
           (srv, Inl (McpError InvalidParams
              ''Invalid event message format: missing or invalid events array'')))
   \<and> (getprop args ''events'' = JArr []
     \<longrightarrow> handleCallTool ''send_gamepad_event'' args srv =
           (srv\<lparr>lastEvents := [], wsHandler := send (JArr []) (wsHandler srv)\<rparr>,
            Inr \<lparr>success = True, eventsReceived = 0,
                 message = ''Events validated and sent successfully''\<rparr>)
       \<and> handleCallTool_checked ''send_gamepad_event'' args srv =
           (srv\<lparr>lastEvents := [], wsHandler := send (JArr []) (wsHandler srv)\<rparr>,
            Inr \<lparr>success = True, eventsReceived = 0,
                 message = ''Events validated and sent successfully''\<rparr>))"
proof (intro conjI impI)
  assume a: "args = JUndefined \<or> args = JNull
      \<or> (\<exists>kvs. args = JObj kvs \<and> (\<nexists>xs. map_of kvs ''events'' = Some (JArr xs)))"
  show "handleCallTool ''send_gamepad_event'' args srv =
           (srv, Inl (McpError InvalidParams
              ''Invalid event message format: missing or invalid events array''))"
    by (rule not_array_rejected(1)[OF a])
  show "handleCallTool_checked ''send_gamepad_event'' args srv =
           (srv, Inl (McpError InvalidParams
              ''Invalid event message format: missing or invalid events array''))"
    by (rule not_array_rejected(2)[OF a])
next
  assume e: "getprop args ''events'' = JArr []"
  have m: "map_validateEvent [] = Inr []" by simp
  show "handleCallTool ''send_gamepad_event'' args srv =
           (srv\<lparr>lastEvents := [], wsHandler := send (JArr []) (wsHandler srv)\<rparr>,
            Inr \<lparr>success = True, eventsReceived = 0,
                 message = ''Events validated and sent successfully''\<rparr>)"
    using handleCallTool_valid[OF e m, of srv] by simp
  show "handleCallTool_checked ''send_gamepad_event'' args srv =
           (srv\<lparr>lastEvents := [], wsHandler := send (JArr []) (wsHandler srv)\<rparr>,
            Inr \<lparr>success = True, eventsReceived = 0,
                 message = ''Events validated and sent successfully''\<rparr>)"
    using handleCallTool_checked_valid[OF e m, of srv] by simp
qed

theorem handleCallTool_envelope_witness:
  "handleCallTool ''send_gamepad_event'' JUndefined (new_GamepadServer True) =
     (new_GamepadServer True, Inl (McpError InvalidParams
        ''Invalid event message format: missing or invalid events array''))
   \<and> handleCallTool ''send_gamepad_event'' (JObj [(''events'', JStr ''A'')]) (new_GamepadServer True) =
     (new_GamepadServer True, Inl (McpError InvalidParams
        ''Invalid event message format: missing or invalid events array''))
   \<and> snd (handleCallTool_checked ''send_gamepad_event'' (JObj [(''events'', JArr [])])
        (new_GamepadServer True)) =
     Inr \<lparr>success = True, eventsReceived = 0,
          message = ''Events validated and sent successfully''\<rparr>"
  using handleCallTool_envelope[of JUndefined "new_GamepadServer True"]
    handleCallTool_envelope[of "JObj [(''events'', JStr ''A'')]" "new_GamepadServer True"]
    handleCallTool_envelope[of "JObj [(''events'', JArr [])]" "new_GamepadServer True"]
  by simp

lemma checkValue_leftTrigger_negative:
  "checkValue leftTrigger_negative =
     Some (McpError InvalidParams ''Trigger values must be numbers between 0 and 1'')"
  by (simp add: checkValue_def leftTrigger_negative_def)

text \<open>
  Fail-fast at the validator: an event that \<open>validateEvent\<close> rejects makes both versions
  of the handler return the error with the server untouched, and the handler without the
  second round of checks never returns an error with a changed server.
\<close>

lemma handleCallTool_failfast:
  assumes "getprop args ''events'' = JArr es" and "e \<in> set es" and "validateEvent e = Inl err"
  shows "\<exists>err'. handleCallTool ''send_gamepad_event'' args srv = (srv, Inl err')
     \<and> handleCallTool_checked ''send_gamepad_event'' args srv = (srv, Inl err')"
proof -
  obtain err' where "map_validateEvent es = Inl err'"
    using map_validateEvent_invalid[OF assms(2,3)] by blast
  then show ?thesis
    using handleCallTool_invalid[OF assms(1)] handleCallTool_checked_invalid[OF assms(1)]
    by blast
qed

lemma handleCallTool_error_unchanged:
  assumes "handleCallTool name args srv = (srv', Inl err)"
  shows "srv' = srv"
proof (cases "name = ''send_gamepad_event'' \<and> truthy args")
  case False
  then show ?thesis using assms by (auto simp: handleCallTool_def split: if_splits)
next
  case True
  show ?thesis
  proof (cases "events_in args")
    case (Inl a)
    then show ?thesis using assms True by (simp add: handleCallTool_def)
  next
    case (Inr present)
    show ?thesis
    proof (cases "\<exists>es. present \<and> getprop args ''events'' = JArr es")
      case False
      then show ?thesis
        using assms True Inr
        by (cases present; cases "getprop args ''events''") (simp_all add: handleCallTool_def)
    next
      case t: True
      then obtain es where es: "present" "getprop args ''events'' = JArr es" by blast
      show ?thesis
        using assms True Inr es
        by (cases "map_validateEvent es") (simp_all add: handleCallTool_def)
    qed
  qed
qed

text \<open>
  C1 holds when the failing check is \<open>validateEvent\<close>: the map throws before anything is
  stored or sent. The handler version with the second round of checks breaks it. Submitted
  to a connected server, a batch holding one trigger event with value -1/2 passes
  \<open>validateEvent\<close>, is stored in \<open>lastEvents\<close> and is sent as a frame; only then does the
  trigger check throw \<open>InvalidParams\<close>. The caller sees a rejected submission whose events
  have been forwarded.
\<close>

theorem handleCallTool_checked_rejects_after_commit:
  "handleCallTool_checked ''send_gamepad_event''
       (JObj [(''events'', JArr [leftTrigger_negative])]) connected_server =
     (\<lparr>lastEvents = [leftTrigger_negative],
       wsHandler = \<lparr>ws = Some 0, wsReconnectInterval = None,
         sockets = [\<lparr>readyState = OPEN,
                     sent = [JObj [(''events'', JArr [leftTrigger_negative])]]\<rparr>],
         timers = []\<rparr>\<rparr>,
      Inl (McpError InvalidParams ''Trigger values must be numbers between 0 and 1''))"
proof -
  have e: "getprop (JObj [(''events'', JArr [leftTrigger_negative])]) ''events''
      = JArr [leftTrigger_negative]"
    by simp
  have m: "map_validateEvent [leftTrigger_negative] = Inr [leftTrigger_negative]"
    by (simp add: validateEvent_leftTrigger_negative)
  have s: "send (JArr [leftTrigger_negative]) (wsHandler connected_server) =
      \<lparr>ws = Some 0, wsReconnectInterval = None,
         sockets = [\<lparr>readyState = OPEN,
                     sent = [JObj [(''events'', JArr [leftTrigger_negative])]]\<rparr>],
         timers = []\<rparr>"
    by (simp add: connected_server_simps send_def)
  have c: "connected_server = \<lparr>lastEvents = [], wsHandler = wsHandler connected_server\<rparr>"
    by (simp add: connected_server_def)
  show ?thesis
    unfolding handleCallTool_checked_valid[OF e m]
    by (subst (2) c) (simp add: s checkValue_leftTrigger_negative)
qed

section \<open>The reconnection timer\<close>

lemma filter_replicate_False: "filter (\<lambda>b. b) (replicate n False) = []"
  by (induction n) simp_all

lemma timer_inv_active:
  "timer_inv h \<Longrightarrow> active_timers h = (if wsReconnectInterval h = None then 0 else 1)"
proof (cases "wsReconnectInterval h")
  case None
  assume "timer_inv h"
  with None have "timers h = replicate (length (timers h)) False"
    by (simp add: timer_inv_def)
  then have "filter (\<lambda>b. b) (timers h) = []"
    using filter_replicate_False[of "length (timers h)"] by simp
  with None show ?thesis by (simp add: active_timers_def)
next
  case (Some t)
  assume "timer_inv h"
  with Some have "timers h = replicate t False @ [True]"
    by (simp add: timer_inv_def)
  then have "filter (\<lambda>b. b) (timers h) = [True]"
    by (simp add: filter_replicate_False)
  with Some show ?thesis by (simp add: active_timers_def)
qed

lemma timer_inv_new: "timer_inv new_WebSocketHandler"
  by (simp add: timer_inv_def new_WebSocketHandler_def)

lemma timer_inv_setupReconnection: "timer_inv h \<Longrightarrow> timer_inv (setupReconnection h)"
proof (cases "wsReconnectInterval h")
  case None
  assume "timer_inv h"
  with None have t: "timers h = replicate (length (timers h)) False"
    by (simp add: timer_inv_def)
  have "timers h @ [True] = replicate (length (timers h)) False @ [True]"
    using t by simp
  with None show ?thesis
    by (simp add: timer_inv_def setupReconnection_def)
next
  case (Some t)
  assume "timer_inv h"
  with Some show ?thesis by (simp add: setupReconnection_def)
qed

lemma timer_inv_handleOpen: "timer_inv h \<Longrightarrow> timer_inv (handleOpen h)"
proof (cases "wsReconnectInterval h")
  case None
  assume "timer_inv h"
  with None show ?thesis by (simp add: handleOpen_def)
next
  case (Some t)
  assume "timer_inv h"
  with Some have t: "timers h = replicate t False @ [True]"
    by (simp add: timer_inv_def)
  have "(replicate t False @ [True])[t := False] = replicate (Suc t) False"
    by (simp add: list_update_append replicate_append_same)
  with Some t show ?thesis
    by (simp add: timer_inv_def handleOpen_def)
qed

lemma timer_inv_cong:
  "wsReconnectInterval h' = wsReconnectInterval h \<Longrightarrow> timers h' = timers h \<Longrightarrow>
   timer_inv h' = timer_inv h"
  by (simp add: timer_inv_def split: option.splits)

lemma timer_inv_set_readyState: "timer_inv (set_readyState i r h) = timer_inv h"
  by (rule timer_inv_cong) (simp_all add: set_readyState_def)

lemma timer_inv_connect: "timer_inv h \<Longrightarrow> timer_inv (connect created h)"
proof -
  assume a: "timer_inv h"
  have "timer_inv (h\<lparr>ws := Some (length (sockets h)),
          sockets := sockets h @ [\<lparr>readyState = CONNECTING, sent = []\<rparr>]\<rparr>) = timer_inv h"
    by (rule timer_inv_cong) simp_all
  with a show ?thesis
    by (simp add: connect_def timer_inv_setupReconnection)
qed

lemma timer_inv_handleClose: "timer_inv h \<Longrightarrow> timer_inv (handleClose code reason h)"
proof -
  assume "timer_inv h"
  moreover have "timer_inv (h\<lparr>ws := None\<rparr>) = timer_inv h"
    by (rule timer_inv_cong) simp_all
  ultimately have "timer_inv (h\<lparr>ws := None\<rparr>)" by simp
  then show ?thesis
    unfolding handleClose_def by (rule timer_inv_setupReconnection)
qed

lemma timer_inv_send: "timer_inv (send event h) = timer_inv h"
  by (rule timer_inv_cong) (simp_all add: send_def Let_def split: option.splits)

lemma timer_inv_step: "timer_inv h \<Longrightarrow> timer_inv (step g h)"
  by (cases g)
     (simp_all add: timer_inv_handleOpen timer_inv_set_readyState timer_inv_handleClose
        timer_inv_connect timer_inv_send handleMessage_def handleError_def)

lemma timer_inv_run: "timer_inv h \<Longrightarrow> timer_inv (run gs h)"
  by (induction gs arbitrary: h) (simp_all add: timer_inv_step)

lemma timer_inv_reachable: "timer_inv (run gs (connect created new_WebSocketHandler))"
  by (intro timer_inv_run timer_inv_connect timer_inv_new)

lemma setupReconnection_pending:
  "wsReconnectInterval h \<noteq> None \<Longrightarrow> setupReconnection h = h"
  by (auto simp: setupReconnection_def)

lemma setupReconnection_arms: "\<exists>t. wsReconnectInterval (setupReconnection h) = Some t"
  by (simp add: setupReconnection_def split: option.splits)

lemma handleOpen_clears: "wsReconnectInterval (handleOpen h) = None"
  by (simp add: handleOpen_def split: option.splits)

lemma step_clears_iff:
  assumes "wsReconnectInterval h \<noteq> None"
  shows "wsReconnectInterval (step g h) = None \<longleftrightarrow>
     (\<exists>i. g = Open i \<and> i < length (sockets h) \<and> readyState (sockets h ! i) = CONNECTING)"
proof (cases g)
  case (Open i)
  then show ?thesis
    using assms by (auto simp: handleOpen_clears)
next
  case (Message i data)
  then show ?thesis using assms by (simp add: handleMessage_def)
next
  case (Close i code reason)
  then show ?thesis
    using assms by (simp add: handleClose_def setupReconnection_arms)
next
  case (Error i message)
  then show ?thesis
    using assms by (simp add: handleError_def set_readyState_def)
next
  case (Tick t created)
  then show ?thesis
    using assms by (simp add: connect_def setupReconnection_arms)
next
  case (Send event)
  then show ?thesis
    using assms by (simp add: send_def Let_def split: option.splits)
qed

lemma handleOpen_keeps:
  "ws (handleOpen h) = ws h" "sockets (handleOpen h) = sockets h"
  by (simp_all add: handleOpen_def split: option.splits)

lemma connectionState_cong:
  "ws h' = ws h \<Longrightarrow> sockets h' = sockets h \<Longrightarrow> connectionState h' = connectionState h"
  by (simp add: connectionState_def split: option.splits)

lemma step_Open_connected:
  assumes "i < length (sockets h)" and "readyState (sockets h ! i) = CONNECTING"
    and "ws h = Some i"
  shows "connectionState (step (Open i) h) = Connected"
proof -
  have "connectionState (handleOpen (set_readyState i OPEN h))
      = connectionState (set_readyState i OPEN h)"
    by (rule connectionState_cong) (simp_all add: handleOpen_keeps)
  also have "\<dots> = Connected"
    using assms by (simp add: connectionState_def set_readyState_def)
  finally show ?thesis
    using assms by simp
qed

lemma run_close_tick:
  "run [Close 0 1006 [], Tick 0 True] (connect True new_WebSocketHandler) =
     \<lparr>ws = Some 1, wsReconnectInterval = Some 0,
      sockets = [\<lparr>readyState = CLOSED, sent = []\<rparr>, \<lparr>readyState = CONNECTING, sent = []\<rparr>],
      timers = [True]\<rparr>"
  by (simp add: connect_def new_WebSocketHandler_def ws_is_open_def set_readyState_def
        handleClose_def setupReconnection_def)

lemma run_close_tick_tick:
  "run [Close 0 1006 [], Tick 0 True, Tick 0 True] (connect True new_WebSocketHandler) =
     \<lparr>ws = Some 2, wsReconnectInterval = Some 0,
      sockets = [\<lparr>readyState = CLOSED, sent = []\<rparr>, \<lparr>readyState = CONNECTING, sent = []\<rparr>,
                 \<lparr>readyState = CONNECTING, sent = []\<rparr>],
      timers = [True]\<rparr>"
  by (simp add: connect_def new_WebSocketHandler_def ws_is_open_def set_readyState_def
        handleClose_def setupReconnection_def)

text \<open>
  What holds of the timer in every state the manager reaches from its construction: at
  most one interval timer of the store is active, and one is active exactly when the
  handler references it. A schedule request while a timer is pending changes nothing. A
  pending timer is cancelled by the next signal if and only if that signal is a socket
  reporting \<open>open\<close>; after such a report no timer is active, and when the reporting socket
  is the one the handler references, the manager is Connected.
\<close>

theorem single_reconnection_timer:
  assumes "h = run gs (connect created new_WebSocketHandler)"
  shows "active_timers h \<le> 1
    \<and> (wsReconnectInterval h \<noteq> None \<longrightarrow> setupReconnection h = h)
    \<and> (active_timers h = 1 \<longrightarrow>
          (active_timers (step g h) = 0 \<longleftrightarrow>
             (\<exists>i. g = Open i \<and> i < length (sockets h)
                  \<and> readyState (sockets h ! i) = CONNECTING)))
    \<and> (i < length (sockets h) \<and> readyState (sockets h ! i) = CONNECTING \<longrightarrow>
          active_timers (step (Open i) h) = 0
          \<and> (ws h = Some i \<longrightarrow> connectionState (step (Open i) h) = Connected))"
proof -
  have inv: "timer_inv h"
    unfolding assms by (rule timer_inv_reachable)
  have act: "active_timers h = (if wsReconnectInterval h = None then 0 else 1)"
    using inv by (rule timer_inv_active)
  have act': "active_timers (step g' h) = (if wsReconnectInterval (step g' h) = None then 0 else 1)"
    for g'
    using timer_inv_step[OF inv] by (rule timer_inv_active)
  have c1: "active_timers h \<le> 1"
    using act by simp
  have c2: "wsReconnectInterval h \<noteq> None \<longrightarrow> setupReconnection h = h"
    using setupReconnection_pending by blast
  have c3: "active_timers h = 1 \<longrightarrow>
          (active_timers (step g h) = 0 \<longleftrightarrow>
             (\<exists>i. g = Open i \<and> i < length (sockets h)
                  \<and> readyState (sockets h ! i) = CONNECTING))"
  proof
    assume one: "active_timers h = 1"
    have p: "wsReconnectInterval h \<noteq> None"
    proof
      assume "wsReconnectInterval h = None"
      then have "active_timers h = 0" unfolding act by simp
      with one show False by simp
    qed
    have "active_timers (step g h) = 0 \<longleftrightarrow> wsReconnectInterval (step g h) = None"
      using act'[of g] by simp
    then show "active_timers (step g h) = 0 \<longleftrightarrow>
             (\<exists>i. g = Open i \<and> i < length (sockets h)
                  \<and> readyState (sockets h ! i) = CONNECTING)"
      using step_clears_iff[OF p, of g] by simp
  qed
  have c4: "i < length (sockets h) \<and> readyState (sockets h ! i) = CONNECTING \<longrightarrow>
          active_timers (step (Open i) h) = 0
          \<and> (ws h = Some i \<longrightarrow> connectionState (step (Open i) h) = Connected)"
  proof (intro impI conjI)
    assume a: "i < length (sockets h) \<and> readyState (sockets h ! i) = CONNECTING"
    then have "wsReconnectInterval (step (Open i) h) = None"
      by (simp add: handleOpen_clears)
    then show "active_timers (step (Open i) h) = 0"
      using act'[of "Open i"] by simp
  next
    assume a: "i < length (sockets h) \<and> readyState (sockets h ! i) = CONNECTING"
      and w: "ws h = Some i"
    from a w show "connectionState (step (Open i) h) = Connected"
      using step_Open_connected[of i h] by blast
  qed
  from c1 c2 c3 c4 show ?thesis by (intro conjI)
qed

theorem single_reconnection_timer_witness:
  "active_timers (run [Close 0 1006 [], Tick 0 True] (connect True new_WebSocketHandler)) = 1
   \<and> setupReconnection (run [Close 0 1006 [], Tick 0 True] (connect True new_WebSocketHandler))
       = run [Close 0 1006 [], Tick 0 True] (connect True new_WebSocketHandler)
   \<and> active_timers (step (Open 1)
         (run [Close 0 1006 [], Tick 0 True] (connect True new_WebSocketHandler))) = 0
   \<and> connectionState (step (Open 1)
         (run [Close 0 1006 [], Tick 0 True] (connect True new_WebSocketHandler))) = Connected"
proof -
  define h where "h = run [Close 0 1006 [], Tick 0 True] (connect True new_WebSocketHandler)"
  note T = single_reconnection_timer[where gs = "[Close 0 1006 [], Tick 0 True]"
      and created = True and g = "Open 1" and i = 1 and h = h, OF h_def]
  have h: "h = \<lparr>ws = Some 1, wsReconnectInterval = Some 0,
      sockets = [\<lparr>readyState = CLOSED, sent = []\<rparr>, \<lparr>readyState = CONNECTING, sent = []\<rparr>],
      timers = [True]\<rparr>"
    unfolding h_def by (rule run_close_tick)
  have f1: "wsReconnectInterval h \<noteq> None" by (simp add: h)
  have f2: "1 < length (sockets h) \<and> readyState (sockets h ! 1) = CONNECTING" by (simp add: h)
  have f3: "ws h = Some 1" by (simp add: h)
  have f4: "active_timers h = 1" by (simp add: h active_timers_def)
  from T f1 f2 f3 f4
  have "active_timers h = 1 \<and> setupReconnection h = h
     \<and> active_timers (step (Open 1) h) = 0
     \<and> connectionState (step (Open 1) h) = Connected"
    by blast
  then show ?thesis unfolding h_def .
qed

section \<open>Sockets created by \<open>connect\<close>\<close>

lemma connect_when_open: "ws_is_open h \<Longrightarrow> connect created h = h"
  by (simp add: connect_def)

text \<open>
  C5 fails on the code. \<open>connect\<close> returns early only when the referenced socket is
  \<open>OPEN\<close>. After a close has armed the timer, a first tick creates a socket that is still
  connecting; a second tick, with that handshake still pending, creates another one and
  overwrites the reference. The earlier socket is neither closed nor detached, so two
  sockets are alive, both reporting to the handler.
\<close>

theorem tick_while_connecting_second_socket:
  "connectionState (run [Close 0 1006 [], Tick 0 True] (connect True new_WebSocketHandler))
     = Connecting
   \<and> live_sockets (run [Close 0 1006 [], Tick 0 True] (connect True new_WebSocketHandler)) = 1
   \<and> live_sockets (run [Close 0 1006 [], Tick 0 True, Tick 0 True]
         (connect True new_WebSocketHandler)) = 2
   \<and> map readyState (sockets (run [Close 0 1006 [], Tick 0 True, Tick 0 True]
         (connect True new_WebSocketHandler))) = [CLOSED, CONNECTING, CONNECTING]"
  unfolding run_close_tick run_close_tick_tick
  by (simp add: connectionState_def live_sockets_def)

lemma connecting_iff:
  "connectionState h = Connecting \<longleftrightarrow>
     (\<exists>i. ws h = Some i \<and> i < length (sockets h) \<and> readyState (sockets h ! i) = CONNECTING)"
  by (auto simp: connectionState_def split: option.splits)

lemma step_Error_delivered:
  assumes "i < length (sockets h)" and "readyState (sockets h ! i) \<noteq> CLOSED"
  shows "step (Error i m) h = set_readyState i CLOSING h"
  using assms by (simp add: handleError_def)

lemma step_Close_after_Error:
  assumes "i < length (sockets h)"
  shows "step (Close i c r) (set_readyState i CLOSING h) =
     setupReconnection ((set_readyState i CLOSED h)\<lparr>ws := None\<rparr>)"
  using assms by (simp add: set_readyState_def handleClose_def)

lemma setupReconnection_keeps:
  "ws (setupReconnection h) = ws h" "sockets (setupReconnection h) = sockets h"
  by (simp_all add: setupReconnection_def split: option.splits)

lemma run_abandoned_opens:
  "run [Close 0 1006 [], Tick 0 True, Tick 0 True, Open 1] (connect True new_WebSocketHandler) =
     \<lparr>ws = Some 2, wsReconnectInterval = None,
      sockets = [\<lparr>readyState = CLOSED, sent = []\<rparr>, \<lparr>readyState = OPEN, sent = []\<rparr>,
                 \<lparr>readyState = CONNECTING, sent = []\<rparr>],
      timers = [False]\<rparr>"
  by (simp add: connect_def new_WebSocketHandler_def ws_is_open_def set_readyState_def
        handleClose_def setupReconnection_def handleOpen_def)

lemma run_unreferenced_opens:
  "run [Close 0 1006 [], Tick 0 True, Tick 0 True, Close 1 1006 [], Open 2]
       (connect True new_WebSocketHandler) =
     \<lparr>ws = None, wsReconnectInterval = None,
      sockets = [\<lparr>readyState = CLOSED, sent = []\<rparr>, \<lparr>readyState = CLOSED, sent = []\<rparr>,
                 \<lparr>readyState = OPEN, sent = []\<rparr>],
      timers = [False]\<rparr>"
  by (simp add: connect_def new_WebSocketHandler_def ws_is_open_def set_readyState_def
        handleClose_def setupReconnection_def handleOpen_def)

text \<open>
  C8 fails on the code where it takes a cancelled timer to mean that Connected is reached.
  \<open>handleOpen\<close> clears the timer for any socket that opens, and the second socket that
  \<open>connect\<close> creates while the first is still connecting leaves one socket unreferenced.
  When that socket opens, the timer is cancelled while the manager is still Connecting.
  When the referenced socket closes first and the other then opens, the timer is cancelled
  with no socket referenced: the manager is Disconnected, no timer is active, and \<open>send\<close>
  drops the batch.
\<close>

theorem open_of_abandoned_socket_cancels_timer:
  "active_timers (run [Close 0 1006 [], Tick 0 True, Tick 0 True]
       (connect True new_WebSocketHandler)) = 1
   \<and> active_timers (run [Close 0 1006 [], Tick 0 True, Tick 0 True, Open 1]
       (connect True new_WebSocketHandler)) = 0
   \<and> connectionState (run [Close 0 1006 [], Tick 0 True, Tick 0 True, Open 1]
       (connect True new_WebSocketHandler)) = Connecting
   \<and> active_timers (run [Close 0 1006 [], Tick 0 True, Tick 0 True, Close 1 1006 [], Open 2]
       (connect True new_WebSocketHandler)) = 0
   \<and> connectionState (run [Close 0 1006 [], Tick 0 True, Tick 0 True, Close 1 1006 [], Open 2]
       (connect True new_WebSocketHandler)) = Disconnected
   \<and> send (JArr [press_A])
        (run [Close 0 1006 [], Tick 0 True, Tick 0 True, Close 1 1006 [], Open 2]
          (connect True new_WebSocketHandler))
     = run [Close 0 1006 [], Tick 0 True, Tick 0 True, Close 1 1006 [], Open 2]
          (connect True new_WebSocketHandler)"
  unfolding run_close_tick_tick run_abandoned_opens run_unreferenced_opens
  by (simp add: active_timers_def connectionState_def send_def)

section \<open>A handshake that fails\<close>

lemma handleError_only_logs: "handleError m h = h"
  by (simp add: handleError_def)

text \<open>
  C6. In every state the manager reaches from its construction in which it is Connecting,
  a failed or timed-out handshake of a connecting socket, which the transport reports as
  an error followed by a close, leaves the manager Disconnected with no socket referenced
  and with exactly one reconnection timer active. The error listener only logs; already
  after the error report the referenced socket is no longer connecting, so the manager is
  Disconnected, and the close listener drops the reference and arms the timer.
\<close>

theorem connecting_failure_schedules_reconnection:
  assumes "h = run gs (connect created new_WebSocketHandler)"
    and "connectionState h = Connecting"
    and "j < length (sockets h)" and "readyState (sockets h ! j) = CONNECTING"
  shows "connectionState (run (emitErrorAndClose j m c r) h) = Disconnected
     \<and> ws (run (emitErrorAndClose j m c r) h) = None
     \<and> wsReconnectInterval (run (emitErrorAndClose j m c r) h) \<noteq> None
     \<and> active_timers (run (emitErrorAndClose j m c r) h) = 1
     \<and> (ws h = Some j \<longrightarrow> connectionState (step (Error j m) h) = Disconnected)"
proof -
  have e: "step (Error j m) h = set_readyState j CLOSING h"
    using assms(3,4) by (intro step_Error_delivered) simp_all
  have c: "run (emitErrorAndClose j m c r) h =
      setupReconnection ((set_readyState j CLOSED h)\<lparr>ws := None\<rparr>)"
  proof -
    have "run (emitErrorAndClose j m c r) h = step (Close j c r) (step (Error j m) h)"
      by (simp only: emitErrorAndClose_def run.simps)
    also have "\<dots> = step (Close j c r) (set_readyState j CLOSING h)"
      by (simp only: e)
    also have "\<dots> = setupReconnection ((set_readyState j CLOSED h)\<lparr>ws := None\<rparr>)"
      using assms(3) by (rule step_Close_after_Error)
    finally show ?thesis .
  qed
  have w: "ws (run (emitErrorAndClose j m c r) h) = None"
    unfolding c by (simp add: setupReconnection_keeps)
  have d: "connectionState (run (emitErrorAndClose j m c r) h) = Disconnected"
    using w by (simp add: connectionState_def)
  have p: "wsReconnectInterval (run (emitErrorAndClose j m c r) h) \<noteq> None"
    unfolding c using setupReconnection_arms[of "(set_readyState j CLOSED h)\<lparr>ws := None\<rparr>"]
    by auto
  have "timer_inv h"
    unfolding assms(1) by (rule timer_inv_reachable)
  then have "timer_inv (run (emitErrorAndClose j m c r) h)"
    by (rule timer_inv_run)
  then have "active_timers (run (emitErrorAndClose j m c r) h) =
      (if wsReconnectInterval (run (emitErrorAndClose j m c r) h) = None then 0 else 1)"
    by (rule timer_inv_active)
  with p have a: "active_timers (run (emitErrorAndClose j m c r) h) = 1"
    by simp
  have k: "ws h = Some j \<longrightarrow> connectionState (step (Error j m) h) = Disconnected"
    unfolding e using assms(3)
    by (simp add: connectionState_def set_readyState_def)
  from d w p a k show ?thesis by (intro conjI)
qed

theorem connecting_failure_schedules_reconnection_witness:
  "connectionState (run [] (connect True new_WebSocketHandler)) = Connecting
   \<and> readyState (sockets (run [] (connect True new_WebSocketHandler)) ! 0) = CONNECTING
   \<and> connectionState (run (emitErrorAndClose 0 ''connect ECONNREFUSED 127.0.0.1:13123'' 1006 [])
         (run [] (connect True new_WebSocketHandler))) = Disconnected
   \<and> active_timers (run (emitErrorAndClose 0 ''connect ECONNREFUSED 127.0.0.1:13123'' 1006 [])
         (run [] (connect True new_WebSocketHandler))) = 1
   \<and> connectionState (run (emitErrorAndClose 0 ''Opening handshake has timed out'' 1006 [])
         (run [] (connect True new_WebSocketHandler))) = Disconnected
   \<and> active_timers (run (emitErrorAndClose 0 ''Opening handshake has timed out'' 1006 [])
         (run [] (connect True new_WebSocketHandler))) = 1"
proof -
  define h where "h = run [] (connect True new_WebSocketHandler)"
  have h: "h = \<lparr>ws = Some 0, wsReconnectInterval = None,
      sockets = [\<lparr>readyState = CONNECTING, sent = []\<rparr>], timers = []\<rparr>"
    unfolding h_def by (simp add: connect_def new_WebSocketHandler_def ws_is_open_def)
  have f1: "connectionState h = Connecting" by (simp add: h connectionState_def)
  have f2: "0 < length (sockets h)" by (simp add: h)
  have f3: "readyState (sockets h ! 0) = CONNECTING" by (simp add: h)
  note T1 = connecting_failure_schedules_reconnection[where gs = "[]" and created = True
      and h = h and j = 0 and m = "''connect ECONNREFUSED 127.0.0.1:13123''"
      and c = 1006 and r = "[]", OF h_def f1 f2 f3]
  note T2 = connecting_failure_schedules_reconnection[where gs = "[]" and created = True
      and h = h and j = 0 and m = "''Opening handshake has timed out''"
      and c = 1006 and r = "[]", OF h_def f1 f2 f3]
  from T1 T2 f1 f3
  have "connectionState h = Connecting
   \<and> readyState (sockets h ! 0) = CONNECTING
   \<and> connectionState (run (emitErrorAndClose 0 ''connect ECONNREFUSED 127.0.0.1:13123'' 1006 [])
         h) = Disconnected
   \<and> active_timers (run (emitErrorAndClose 0 ''connect ECONNREFUSED 127.0.0.1:13123'' 1006 [])
         h) = 1
   \<and> connectionState (run (emitErrorAndClose 0 ''Opening handshake has timed out'' 1006 [])
         h) = Disconnected
   \<and> active_timers (run (emitErrorAndClose 0 ''Opening handshake has timed out'' 1006 [])
         h) = 1"
    by (intro conjI) (erule conjunct1 | simp)+
  then show ?thesis unfolding h_def .
qed

section \<open>The two versions of the validator agree\<close>

text \<open>
  The enum version accepts exactly the events the table version accepts, and returns the
  event itself as well; the two differ in the wording of their errors only. What is proved
  above of \<open>validateEvent\<close> therefore holds whichever version of the module the handler
  imports.
\<close>

lemma isl_if: "isl (if c then a else b) = (if c then isl a else isl b)"
  by simp

lemma isl_case_option:
  "isl (case x of Some err \<Rightarrow> Inl err | None \<Rightarrow> Inr y) = (x \<noteq> None)"
  by (cases x) simp_all

lemma array_includes_iff:
  "array_includes xs v \<longleftrightarrow> (\<exists>s. v = JStr s \<and> s \<in> set xs)"
  by (cases v) simp_all

lemma validateAnalogValue_None:
  "validateAnalogValue v = None \<longleftrightarrow> (\<exists>r. v = JNum r \<and> -1 \<le> r \<and> r \<le> 1)"
  by (cases v) (auto simp: validateAnalogValue_def not_less)

lemma getprop_JStr_truthy:
  "getprop e k = JStr s \<Longrightarrow> typeof e = ''object'' \<and> truthy e"
  by (cases e) simp_all

lemma validateEvent_enum_bad_type:
  "\<not> array_includes EventType (getprop e ''type'') \<Longrightarrow> isl (validateEvent_enum str e)"
  unfolding validateEvent_enum_def isl_if by simp

lemma validateEvent_enum_button:
  assumes "getprop e ''type'' = JStr ''button''"
  shows "isl (validateEvent_enum str e) \<longleftrightarrow>
     \<not> (truthy (getprop e ''code'') \<and> array_includes ButtonCode (getprop e ''code'')
        \<and> typeof (getprop e ''value'') = ''boolean'')"
proof -
  note obj = getprop_JStr_truthy[OF assms]
  have ty: "''button'' \<in> set EventType" by (simp add: EventType_def)
  show ?thesis
    unfolding validateEvent_enum_def isl_if
    by (simp add: assms obj ty)
qed

lemma validateEvent_enum_axis:
  assumes "getprop e ''type'' = JStr ''axis''"
  shows "isl (validateEvent_enum str e) \<longleftrightarrow>
     \<not> (truthy (getprop e ''code'') \<and> array_includes AxisCode (getprop e ''code'')
        \<and> validateAnalogValue (getprop e ''value'') = None)"
proof -
  note obj = getprop_JStr_truthy[OF assms]
  have ty: "''axis'' \<in> set EventType" by (simp add: EventType_def)
  show ?thesis
    unfolding validateEvent_enum_def isl_if isl_case_option
    by (simp add: assms obj ty)
qed

lemma validateEvent_enum_trigger:
  assumes "getprop e ''type'' = JStr ''trigger''"
  shows "isl (validateEvent_enum str e) \<longleftrightarrow>
     \<not> (truthy (getprop e ''code'') \<and> array_includes TriggerCode (getprop e ''code'')
        \<and> validateAnalogValue (getprop e ''value'') = None)"
proof -
  note obj = getprop_JStr_truthy[OF assms]
  have ty: "''trigger'' \<in> set EventType" by (simp add: EventType_def)
  show ?thesis
    unfolding validateEvent_enum_def isl_if isl_case_option
    by (simp add: assms obj ty)
qed

lemma validateEvent_enum_mouseButton:
  assumes "getprop e ''type'' = JStr ''mouseButton''"
  shows "isl (validateEvent_enum str e) \<longleftrightarrow>
     \<not> (truthy (getprop e ''code'') \<and> array_includes MouseButtonCode (getprop e ''code'')
        \<and> typeof (getprop e ''value'') = ''boolean'')"
proof -
  note obj = getprop_JStr_truthy[OF assms]
  have ty: "''mouseButton'' \<in> set EventType" by (simp add: EventType_def)
  show ?thesis
    unfolding validateEvent_enum_def isl_if
    by (simp add: assms obj ty)
qed

lemma validateEvent_enum_keyboard:
  assumes "getprop e ''type'' = JStr ''keyboard''"
  shows "isl (validateEvent_enum str e) \<longleftrightarrow>
     \<not> (truthy (getprop e ''code'') \<and> array_includes KeyboardCode (getprop e ''code'')
        \<and> typeof (getprop e ''value'') = ''boolean'')"
proof -
  note obj = getprop_JStr_truthy[OF assms]
  have ty: "''keyboard'' \<in> set EventType" by (simp add: EventType_def)
  show ?thesis
    unfolding validateEvent_enum_def isl_if
    by (simp add: assms obj ty)
qed

lemma typeof_boolean: "typeof v = ''boolean'' \<longleftrightarrow> (\<exists>b. v = JBool b)"
  by (cases v) simp_all

lemma validateEvent_isl_not_strings:
  "(\<nexists>t. getprop e ''type'' = JStr t) \<or> (\<nexists>c. getprop e ''code'' = JStr c) \<Longrightarrow>
   isl (validateEvent e)"
  using validateEvent_not_strings[of e] by auto

lemma agree_discrete:
  assumes t: "getprop e ''type'' = JStr t"
    and d: "t = ''button'' \<or> t = ''mouseButton'' \<or> t = ''keyboard''"
    and en: "isl (validateEvent_enum str e) \<longleftrightarrow>
       \<not> (truthy (getprop e ''code'') \<and> array_includes cs (getprop e ''code'')
          \<and> typeof (getprop e ''value'') = ''boolean'')"
    and tab: "\<And>c. isValidButtonCode t c \<longleftrightarrow> c \<in> set cs"
    and ne: "[] \<notin> set cs"
  shows "isl (validateEvent_enum str e) \<longleftrightarrow> isl (validateEvent e)"
proof (cases "\<exists>c. getprop e ''code'' = JStr c")
  case False
  then have "\<not> array_includes cs (getprop e ''code'')"
    by (simp add: array_includes_iff)
  then have "isl (validateEvent_enum str e)" using en by simp
  moreover have "isl (validateEvent e)"
    using False by (intro validateEvent_isl_not_strings) simp
  ultimately show ?thesis by simp
next
  case True
  then obtain c where c: "getprop e ''code'' = JStr c" by blast
  have "c \<in> set cs \<Longrightarrow> c \<noteq> []" using ne by auto
  then have "isl (validateEvent_enum str e) \<longleftrightarrow>
      \<not> (c \<in> set cs \<and> (\<exists>b. getprop e ''value'' = JBool b))"
    unfolding en by (auto simp: c typeof_boolean)
  then show ?thesis
    using validateEvent_button_iff[OF t c d] tab[of c] by blast
qed

lemma agree_analog:
  assumes t: "getprop e ''type'' = JStr t"
    and d: "t = ''axis'' \<or> t = ''trigger''"
    and en: "isl (validateEvent_enum str e) \<longleftrightarrow>
       \<not> (truthy (getprop e ''code'') \<and> array_includes cs (getprop e ''code'')
          \<and> validateAnalogValue (getprop e ''value'') = None)"
    and tab: "\<And>c. isValidSliderCode t c \<longleftrightarrow> c \<in> set cs"
    and ne: "[] \<notin> set cs"
  shows "isl (validateEvent_enum str e) \<longleftrightarrow> isl (validateEvent e)"
proof (cases "\<exists>c. getprop e ''code'' = JStr c")
  case False
  then have "\<not> array_includes cs (getprop e ''code'')"
    by (simp add: array_includes_iff)
  then have "isl (validateEvent_enum str e)" using en by simp
  moreover have "isl (validateEvent e)"
    using False by (intro validateEvent_isl_not_strings) simp
  ultimately show ?thesis by simp
next
  case True
  then obtain c where c: "getprop e ''code'' = JStr c" by blast
  have "c \<in> set cs \<Longrightarrow> c \<noteq> []" using ne by auto
  then have "isl (validateEvent_enum str e) \<longleftrightarrow>
      \<not> (c \<in> set cs \<and> (\<exists>r. getprop e ''value'' = JNum r \<and> -1 \<le> r \<and> r \<le> 1))"
    unfolding en by (auto simp: c validateAnalogValue_None)
  then show ?thesis
    using validateEvent_slider_iff[OF t c d] tab[of c] by blast
qed

lemma validateEvent_isl_unknown_type:
  assumes "getprop e ''type'' = JStr t" and "t \<notin> set EventType"
  shows "isl (validateEvent e)"
proof (cases "\<exists>c. getprop e ''code'' = JStr c")
  case False
  then show ?thesis by (intro validateEvent_isl_not_strings) simp
next
  case True
  then obtain c where c: "getprop e ''code'' = JStr c" by blast
  have "\<not> (t = ''button'' \<or> t = ''mouseButton'' \<or> t = ''keyboard'')"
      "\<not> (t = ''axis'' \<or> t = ''trigger'')"
    using assms(2) by (auto simp: EventType_def)
  then show ?thesis
    using validateEvent_ok_iff[OF assms(1) c] by simp
qed

lemma validateEvent_enum_agrees:
  "isl (validateEvent_enum str e) \<longleftrightarrow> isl (validateEvent e)"
proof (cases "\<exists>t. getprop e ''type'' = JStr t \<and> t \<in> set EventType")
  case False
  then have "\<not> array_includes EventType (getprop e ''type'')"
    by (simp add: array_includes_iff)
  then have "isl (validateEvent_enum str e)"
    by (rule validateEvent_enum_bad_type)
  moreover have "isl (validateEvent e)"
  proof (cases "\<exists>t. getprop e ''type'' = JStr t")
    case f: False
    then show ?thesis by (intro validateEvent_isl_not_strings) simp
  next
    case True
    then obtain t where "getprop e ''type'' = JStr t" by blast
    with False show ?thesis
      using validateEvent_isl_unknown_type[of e t] by blast
  qed
  ultimately show ?thesis by simp
next
  case True
  then obtain t where t: "getprop e ''type'' = JStr t" and m: "t \<in> set EventType" by blast
  from m have "t = ''button'' \<or> t = ''axis'' \<or> t = ''trigger''
      \<or> t = ''mouseButton'' \<or> t = ''keyboard''"
    by (simp add: EventType_def)
  then show ?thesis
  proof (elim disjE)
    assume c1: "t = ''button''"
    have t1: "getprop e ''type'' = JStr ''button''" using t c1 by simp
    have d: "t = ''button'' \<or> t = ''mouseButton'' \<or> t = ''keyboard''" using c1 by simp
    have ne: "[] \<notin> set ButtonCode" by (simp add: ButtonCode_def)
    have tab: "isValidButtonCode t c \<longleftrightarrow> c \<in> set ButtonCode" for c
      unfolding c1 by (rule isValidButtonCode_button)
    show ?thesis
      by (rule agree_discrete[OF t d validateEvent_enum_button[OF t1] tab ne])
  next
    assume c2: "t = ''axis''"
    have t1: "getprop e ''type'' = JStr ''axis''" using t c2 by simp
    have d: "t = ''axis'' \<or> t = ''trigger''" using c2 by simp
    have ne: "[] \<notin> set AxisCode" by (simp add: AxisCode_def)
    have tab: "isValidSliderCode t c \<longleftrightarrow> c \<in> set AxisCode" for c
      unfolding c2 by (rule isValidSliderCode_axis)
    show ?thesis
      by (rule agree_analog[OF t d validateEvent_enum_axis[OF t1] tab ne])
  next
    assume c3: "t = ''trigger''"
    have t1: "getprop e ''type'' = JStr ''trigger''" using t c3 by simp
    have d: "t = ''axis'' \<or> t = ''trigger''" using c3 by simp
    have ne: "[] \<notin> set TriggerCode" by (simp add: TriggerCode_def)
    have tab: "isValidSliderCode t c \<longleftrightarrow> c \<in> set TriggerCode" for c
      unfolding c3 by (rule isValidSliderCode_trigger)
    show ?thesis
      by (rule agree_analog[OF t d validateEvent_enum_trigger[OF t1] tab ne])
  next
    assume c4: "t = ''mouseButton''"
    have t1: "getprop e ''type'' = JStr ''mouseButton''" using t c4 by simp
    have d: "t = ''button'' \<or> t = ''mouseButton'' \<or> t = ''keyboard''" using c4 by simp
    have ne: "[] \<notin> set MouseButtonCode" by (simp add: MouseButtonCode_def)
    have tab: "isValidButtonCode t c \<longleftrightarrow> c \<in> set MouseButtonCode" for c
      unfolding c4 by (rule isValidButtonCode_mouseButton)
    show ?thesis
      by (rule agree_discrete[OF t d validateEvent_enum_mouseButton[OF t1] tab ne])
  next
    assume c5: "t = ''keyboard''"
    have t1: "getprop e ''type'' = JStr ''keyboard''" using t c5 by simp
    have d: "t = ''button'' \<or> t = ''mouseButton'' \<or> t = ''keyboard''" using c5 by simp
    have ne: "[] \<notin> set KeyboardCode" by (simp add: KeyboardCode_def)
    have tab: "isValidButtonCode t c \<longleftrightarrow> c \<in> set KeyboardCode" for c
      unfolding c5 by (rule isValidButtonCode_keyboard)
    show ?thesis
      by (rule agree_discrete[OF t d validateEvent_enum_keyboard[OF t1] tab ne])
  qed
qed

lemma validateEvent_enum_Inr: "validateEvent_enum str e = Inr v \<Longrightarrow> v = e"
  unfolding validateEvent_enum_def
  by (simp split: if_splits option.splits)

lemma validateEvent_enum_same_outcome:
  "(validateEvent_enum str e = Inr e \<and> validateEvent e = Inr e)
   \<or> ((\<exists>err. validateEvent_enum str e = Inl err) \<and> (\<exists>err. validateEvent e = Inl err))"
proof (cases "isl (validateEvent e)")
  case True
  then have "isl (validateEvent_enum str e)"
    by (simp add: validateEvent_enum_agrees)
  with True show ?thesis
    by (auto simp: isl_def)
next
  case False
  then have "\<not> isl (validateEvent_enum str e)"
    by (simp add: validateEvent_enum_agrees)
  then obtain v where v: "validateEvent_enum str e = Inr v"
    by (cases "validateEvent_enum str e") auto
  from False have "validateEvent e = Inr e"
    using validateEvent_result[of e] by blast
  moreover have "validateEvent_enum str e = Inr e"
    using v validateEvent_enum_Inr[OF v] by simp
  ultimately show ?thesis by simp
qed

end
